theory Spec2Isabelle
  imports Main "HOL-Library.Sublist"
begin

section \<open>The event hub of fabric-client (lib/EventHub.js)\<close>

text \<open>
  A shallow embedding of the class \<open>EventHub\<close>: its registries, its connection
  handling and the three dispatch passes that run on every block the peer streams.
  Every method takes the hub and returns the hub it leaves behind; a method that can
  throw returns \<open>(error + value) \<times> hub\<close>, the hub being the state at the
  moment of the throw (JavaScript does not roll back).

  What lies outside the class is modelled as follows.
  \<^item> A callback is an opaque function. Calling it is recorded in the hub's
    \<open>calls\<close> log, with its arguments; the callback is taken to return normally
    and not to call back into the hub.
  \<^item> The stream, the timers and the signing identity are the platform's: a write, an
    end and a resume are recorded in the same log, the two answers the code asks of a
    stream (\<open>isPaused()\<close>, the channel's connectivity state) are fields of the
    stream, and a signature is symbolic.
  \<^item> \<open>RegExp\<close> is the platform's too. The model reads itself the patterns made of
    literal characters, \<open>.\<close> and \<open>*\<close>; for any other pattern, whether it
    compiles and what \<open>test\<close> answers are taken from a parameter.
  \<^item> Numbers are \<open>nat\<close>: JavaScript numbers are exact on integers below
    \<open>2 ^ 53\<close>, a count of registrations that no hub reaches.
  \<^item> A string is a list of 8-bit characters, one per code unit of the JavaScript
    string: the strings whose code units are below 256.
\<close>

subsection \<open>Errors\<close>

datatype error =
    Missing_clientContext
      \<comment> \<open>\<open>Error('Missing required argument: clientContext')\<close>\<close>
  | Invalid_clientContext
      \<comment> \<open>\<open>Error('Invalid clientContext argument: missing required function "getUserContext"')\<close>\<close>
  | Missing_userContext
      \<comment> \<open>\<open>Error('The clientContext has not been properly initialized, missing userContext')\<close>\<close>
  | Must_set_peer_address
      \<comment> \<open>\<open>Error('Must set peer address before connecting.')\<close>\<close>
  | Not_connected_to_event_source
      \<comment> \<open>\<open>Error('The event hub has not been connected to the event source')\<close>\<close>
  | Event_hub_is_not_connected
      \<comment> \<open>\<open>Error('Event hub is not connected ')\<close>\<close>
  | EventHub_has_been_shutdown
      \<comment> \<open>\<open>Error('EventHub has been shutdown')\<close>, handed to the onError callbacks\<close>
  | Missing_parameter string
      \<comment> \<open>\<open>Error('Missing "<name>" parameter')\<close>\<close>
  | TypeError string
      \<comment> \<open>a property read or a call on \<open>null\<close> or \<open>undefined\<close>\<close>
  | SyntaxError string
      \<comment> \<open>thrown by \<open>new RegExp\<close>\<close>

definition andThen ::
  "(error + 'a) \<times> 's \<Rightarrow> ('a \<Rightarrow> 's \<Rightarrow> (error + 'b) \<times> 's) \<Rightarrow> (error + 'b) \<times> 's" where
  "andThen m f = (case m of (Inl e, s) \<Rightarrow> (Inl e, s) | (Inr a, s) \<Rightarrow> f a s)"

subsection \<open>What the module takes from outside the sources\<close>

text \<open>
  A parameter of the model holds what the sources do not: the enums that
  \<open>grpc.load\<close> reads from the .proto files, and the platform's \<open>RegExp\<close> for
  the patterns that the model does not read itself (whether \<open>new RegExp(p)\<close>
  returns rather than throws, and what \<open>test\<close> answers for \<open>p\<close> on a string).
\<close>

record Protos =
  TxValidationCode :: "(string \<times> nat) list"
  HeaderType :: "(string \<times> nat) list"
  TRANSACTIONS_FILTER :: nat
  native_compiles :: "string \<Rightarrow> bool"
  native_test :: "string \<Rightarrow> string \<Rightarrow> bool"

subsection \<open>Regular expressions: \<open>new RegExp(p)\<close> and \<open>test\<close>\<close>

text \<open>
  \<open>ChainCodeCBE\<close> compiles the event name filter with \<open>new RegExp\<close> and the
  dispatch calls \<open>test\<close> on it. The model reads itself the patterns made of
  literal characters, \<open>.\<close> and the postfix \<open>*\<close>: such a pattern is parsed
  into a regular expression, matched by derivatives; \<open>lang\<close> is the set of strings
  it denotes. Any other pattern is left to the platform: it compiles if the
  parameter says so, to a value that keeps the pattern, and \<open>test\<close> on it is the
  parameter's answer.
\<close>

datatype rexp = Zero | One | Chr char | Dot | Alt rexp rexp | Seq rexp rexp | Star rexp

definition line_terminator :: "char \<Rightarrow> bool" where
  "line_terminator c = (c = CHR 0x0A \<or> c = CHR 0x0D)"

fun nullable :: "rexp \<Rightarrow> bool" where
  "nullable Zero = False"
| "nullable One = True"
| "nullable (Chr c) = False"
| "nullable Dot = False"
| "nullable (Alt r s) = (nullable r \<or> nullable s)"
| "nullable (Seq r s) = (nullable r \<and> nullable s)"
| "nullable (Star r) = True"

fun deriv :: "char \<Rightarrow> rexp \<Rightarrow> rexp" where
  "deriv c Zero = Zero"
| "deriv c One = Zero"
| "deriv c (Chr d) = (if c = d then One else Zero)"
| "deriv c Dot = (if line_terminator c then Zero else One)"
| "deriv c (Alt r s) = Alt (deriv c r) (deriv c s)"
| "deriv c (Seq r s) =
     (if nullable r then Alt (Seq (deriv c r) s) (deriv c s) else Seq (deriv c r) s)"
| "deriv c (Star r) = Seq (deriv c r) (Star r)"

text \<open>Does some prefix of the string match?\<close>

fun match_prefix :: "rexp \<Rightarrow> string \<Rightarrow> bool" where
  "match_prefix r [] = nullable r"
| "match_prefix r (c # cs) = (nullable r \<or> match_prefix (deriv c r) cs)"

text \<open>
  The search that \<open>test\<close> makes for a pattern without flags: it tries every
  start position, so it answers whether some substring matches.
\<close>

fun search :: "rexp \<Rightarrow> string \<Rightarrow> bool" where
  "search r [] = nullable r"
| "search r (c # cs) = (match_prefix r (c # cs) \<or> search r cs)"

definition metachar :: "char \<Rightarrow> bool" where
  "metachar c = (c = CHR 0x5C \<or> c \<in> set ''^$.*+?()[]{}|'')"

definition seq_with :: "rexp \<Rightarrow> error + rexp \<Rightarrow> error + rexp" where
  "seq_with a rest = (case rest of Inl e \<Rightarrow> Inl e | Inr r \<Rightarrow> Inr (Seq a r))"

text \<open>
  The parser of the patterns the model reads: a \<open>*\<close> with nothing before it to
  repeat is a syntax error, as in JavaScript.
\<close>

fun parse_pattern :: "string \<Rightarrow> error + rexp" where
  "parse_pattern [] = Inr One"
| "parse_pattern (c # cs) =
     (if c = CHR ''*'' then Inl (SyntaxError ''Nothing to repeat'')
      else
        (case cs of
           [] \<Rightarrow> seq_with (if c = CHR ''.'' then Dot else Chr c) (parse_pattern cs)
         | d # ds \<Rightarrow>
             if d = CHR ''*''
             then seq_with (Star (if c = CHR ''.'' then Dot else Chr c)) (parse_pattern ds)
             else seq_with (if c = CHR ''.'' then Dot else Chr c) (parse_pattern cs)))"

definition in_fragment :: "string \<Rightarrow> bool" where
  "in_fragment p = list_all (\<lambda>c. c = CHR ''.'' \<or> c = CHR ''*'' \<or> \<not> metachar c) p"

text \<open>A compiled pattern: parsed by the model, or kept for the platform.\<close>

datatype RegExp = Parsed rexp | Native string

definition RegExp_new :: "Protos \<Rightarrow> string \<Rightarrow> error + RegExp" where
  "RegExp_new P p =
     (if in_fragment p
      then (case parse_pattern p of Inl e \<Rightarrow> Inl e | Inr r \<Rightarrow> Inr (Parsed r))
      else if native_compiles P p then Inr (Native p)
      else Inl (SyntaxError ''Invalid regular expression''))"

definition RegExp_test :: "Protos \<Rightarrow> RegExp \<Rightarrow> string \<Rightarrow> bool" where
  "RegExp_test P re s = (case re of Parsed r \<Rightarrow> search r s | Native p \<Rightarrow> native_test P p s)"

text \<open>The strings a regular expression denotes.\<close>

definition conc :: "string set \<Rightarrow> string set \<Rightarrow> string set" where
  "conc A B = {u @ v | u v. u \<in> A \<and> v \<in> B}"

inductive_set star :: "string set \<Rightarrow> string set" for A :: "string set" where
  star_empty: "[] \<in> star A"
| star_step: "u \<in> A \<Longrightarrow> v \<in> star A \<Longrightarrow> u @ v \<in> star A"

fun lang :: "rexp \<Rightarrow> string set" where
  "lang Zero = {}"
| "lang One = {[]}"
| "lang (Chr c) = {[c]}"
| "lang Dot = {[c] | c. \<not> line_terminator c}"
| "lang (Alt r s) = lang r \<union> lang s"
| "lang (Seq r s) = conc (lang r) (lang s)"
| "lang (Star r) = star (lang r)"

text \<open>A pattern of literal characters only.\<close>

fun literal :: "string \<Rightarrow> rexp" where
  "literal [] = One"
| "literal (c # cs) = Seq (Chr c) (literal cs)"

subsection \<open>The \<open>hashtable\<close> package\<close>

text \<open>
  A \<open>HashTable\<close> is an association list with one entry per key. \<open>forEach\<close> visits
  the entries in the list's order, which stands for the order of the native table (the
  package promises none).
\<close>

type_synonym ('k, 'v) HashTable = "('k \<times> 'v) list"

definition ht_get :: "('k, 'v) HashTable \<Rightarrow> 'k \<Rightarrow> 'v option" where
  "ht_get t k = map_of t k"

fun ht_put :: "'k \<Rightarrow> 'v \<Rightarrow> ('k, 'v) HashTable \<Rightarrow> ('k, 'v) HashTable" where
  "ht_put k v [] = [(k, v)]"
| "ht_put k v (e # t) = (if fst e = k then (k, v) # t else e # ht_put k v t)"

definition ht_remove :: "'k \<Rightarrow> ('k, 'v) HashTable \<Rightarrow> ('k, 'v) HashTable" where
  "ht_remove k t = filter (\<lambda>e. fst e \<noteq> k) t"

definition ht_size :: "('k, 'v) HashTable \<Rightarrow> nat" where
  "ht_size t = length t"

subsection \<open>Decoded blocks\<close>

text \<open>
  The hub receives blocks decoded by \<open>BlockDecoder.decodeBlock\<close>. A block keeps the
  fields the hub reads: \<open>block.header.number\<close>, \<open>block.data.data\<close> and
  \<open>block.metadata.metadata\<close>. An action keeps
  \<open>payload.action.proposal_response_payload.extension.events\<close>, absent when
  a property on that path is missing.
\<close>

record ChaincodeEvent =
  chaincode_id :: string
  event_tx_id :: string
  event_name :: string
  event_payload :: string

record ChannelHeader =
  header_type :: string
  tx_id :: string
  channel_id :: string

record Action =
  events :: "ChaincodeEvent option"

datatype PayloadData = Transaction "Action list" | ConfigEnvelope | Undecoded string

record Envelope =
  channel_header :: ChannelHeader
  payload_data :: PayloadData
  signature :: string

record Block =
  number :: nat
  data :: "Envelope list"
  metadata :: "nat list list"

text \<open>
  \<open>_validation_codes\<close> and \<open>_header_types\<close> are built from the enums of
  the parameter when the module loads, by the two loops at its top, which map each
  enum value back to its name.
\<close>

definition invert_enum :: "(string \<times> nat) list \<Rightarrow> nat \<Rightarrow> string option" where
  "invert_enum enum = fold (\<lambda>e tbl. tbl(snd e \<mapsto> fst e)) enum Map.empty"

definition validation_codes :: "Protos \<Rightarrow> nat \<Rightarrow> string option" where
  "validation_codes P = invert_enum (TxValidationCode P)"

definition header_types :: "Protos \<Rightarrow> nat \<Rightarrow> string option" where
  "header_types P = invert_enum (HeaderType P)"

definition convertValidationCode :: "Protos \<Rightarrow> nat option \<Rightarrow> string option" where
  "convertValidationCode P code = (case code of None \<Rightarrow> None | Some c \<Rightarrow> validation_codes P c)"

text \<open>\<open>xs[i]\<close>: \<open>undefined\<close> past the end.\<close>

fun index :: "'a list \<Rightarrow> nat \<Rightarrow> 'a option" where
  "index [] i = None"
| "index (x # xs) 0 = Some x"
| "index (x # xs) (Suc i) = index xs i"

subsection \<open>The hub\<close>

text \<open>A callback is known by a name.\<close>

type_synonym callback = string

record Remote =
  url :: string
  request_timeout :: nat

record User =
  identity :: string

text \<open>
  The argument of the constructor: absent, an object without a \<open>getUserContext\<close>
  function, or an object whose \<open>getUserContext()\<close> gives a user or nothing.
\<close>

datatype ClientContext = No_getUserContext | GetUserContext "User option"

text \<open>
  The registration message: \<open>setRegister\<close> or \<open>setUnregister\<close> for block
  events, with the creator's serialized identity, and the identity that signed it.
\<close>

datatype Event = Event (is_register: bool) (creator: string)

datatype SignedEvent = SignedEvent (event_bytes: Event) (signed_by: string)

record Stream =
  sid :: nat
  isPaused :: bool
  connectivity_state :: nat

record ChainCodeCBE =
  ref :: nat
  ccid :: string
  eventNameFilter :: RegExp
  onEvent :: callback
  onError :: "callback option"

text \<open>What the hub does to the world outside, in the order it does it.\<close>

datatype call =
    Block_callback callback Block
  | Tx_callback callback string "string option"
  | Chaincode_callback callback ChaincodeEvent
  | Error_callback callback error
  | Stream_write nat SignedEvent
  | Stream_end nat
  | Stream_resume nat

text \<open>
  The fields of the class, then what the model adds: \<open>send_timeouts\<close> holds the
  armed \<open>send_timeout\<close> timers, each named by the number of the connection whose
  closure owns it; \<open>streams_opened\<close> numbers the connections; \<open>objects_allocated\<close>
  numbers the \<open>ChainCodeCBE\<close> objects, which a \<open>Set\<close> tells apart by identity;
  \<open>calls\<close> is the log. The field \<open>_client\<close> is only used to open the stream.
\<close>

record EventHub =
  chaincodeRegistrants :: "(string, ChainCodeCBE list) HashTable"
  block_registrant_count :: nat
  blockOnEvents :: "(nat, callback) HashTable"
  blockOnErrors :: "(nat, callback) HashTable"
  transactionOnEvents :: "(string, callback) HashTable"
  transactionOnErrors :: "(string, callback) HashTable"
  ep :: "Remote option"
  stream :: "Stream option"
  connected :: bool
  force_reconnect :: bool
  userContext :: User
  send_timeouts :: "nat list"
  streams_opened :: nat
  objects_allocated :: nat
  calls :: "call list"

text \<open>The fields as the constructor sets them, for a client context that has a user.\<close>

definition new_hub :: "User \<Rightarrow> EventHub" where
  "new_hub user =
     \<lparr>chaincodeRegistrants = [], block_registrant_count = 1,
      blockOnEvents = [], blockOnErrors = [],
      transactionOnEvents = [], transactionOnErrors = [],
      ep = None, stream = None, connected = False, force_reconnect = True,
      userContext = user, send_timeouts = [], streams_opened = 0,
      objects_allocated = 0, calls = []\<rparr>"

definition EventHub_new :: "ClientContext option \<Rightarrow> error + EventHub" where
  "EventHub_new clientContext =
     (case clientContext of
        None \<Rightarrow> Inl Missing_clientContext
      | Some No_getUserContext \<Rightarrow> Inl Invalid_clientContext
      | Some (GetUserContext None) \<Rightarrow> Inl Missing_userContext
      | Some (GetUserContext (Some user)) \<Rightarrow> Inr (new_hub user))"

definition setPeerAddr :: "Remote \<Rightarrow> EventHub \<Rightarrow> EventHub" where
  "setPeerAddr remote h = h\<lparr>ep := Some remote\<rparr>"

definition isconnected :: "EventHub \<Rightarrow> bool" where
  "isconnected h = connected h"

definition do_call :: "call \<Rightarrow> EventHub \<Rightarrow> EventHub" where
  "do_call c h = h\<lparr>calls := calls h @ [c]\<rparr>"

text \<open>
  \<open>_sendRegistration\<close>, on the stream \<open>s\<close> that \<open>this.stream\<close> holds: both
  callers have one, \<open>_connect\<close> having just opened it and \<open>disconnect\<close> having
  tested it.
\<close>

definition sendRegistration :: "bool \<Rightarrow> Stream \<Rightarrow> EventHub \<Rightarrow> EventHub" where
  "sendRegistration register s h =
     do_call (Stream_write (sid s)
       (SignedEvent (Event register (identity (userContext h))) (identity (userContext h)))) h"

text \<open>
  \<open>_closeAllCallbacks(err)\<close>: the onError callbacks of the block table, of the
  transaction table and of the chaincode registrations that have one are called, in
  this order, and each registry is cleared after its callbacks have run.
\<close>

definition closeAllCallbacks :: "error \<Rightarrow> EventHub \<Rightarrow> EventHub" where
  "closeAllCallbacks err h =
     h\<lparr>calls := calls h
          @ map (\<lambda>e. Error_callback (snd e) err) (blockOnErrors h)
          @ map (\<lambda>e. Error_callback (snd e) err) (transactionOnErrors h)
          @ concat (map (\<lambda>e. List.map_filter
                (\<lambda>cbe. map_option (\<lambda>cb. Error_callback cb err) (onError cbe)) (snd e))
              (chaincodeRegistrants h)),
       blockOnEvents := [], blockOnErrors := [],
       transactionOnEvents := [], transactionOnErrors := [],
       chaincodeRegistrants := []\<rparr>"

definition disconnect :: "EventHub \<Rightarrow> EventHub" where
  "disconnect h =
     (let h1 = closeAllCallbacks EventHub_has_been_shutdown (h\<lparr>connected := False\<rparr>)
      in case stream h1 of
           None \<Rightarrow> h1
         | Some s \<Rightarrow> do_call (Stream_end (sid s)) (sendRegistration False s h1))"

text \<open>
  \<open>_connect(force)\<close>. The new stream is number \<open>streams_opened\<close>; its timer is
  armed and its three handlers (\<open>stream_on_data\<close>, \<open>stream_on_end\<close> and
  \<open>stream_on_error\<close> below) are installed. A fresh stream is flowing and its
  channel idle.
\<close>

definition connect_internal :: "bool \<Rightarrow> EventHub \<Rightarrow> (error + unit) \<times> EventHub" where
  "connect_internal force h =
     (if \<not> force \<and> connected h then (Inr (), h)
      else case ep h of
        None \<Rightarrow> (Inl Must_set_peer_address, h)
      | Some remote \<Rightarrow>
          (let k = streams_opened h;
               s = \<lparr>sid = k, isPaused = False, connectivity_state = 0\<rparr>
           in (Inr (), sendRegistration True s
                 (h\<lparr>send_timeouts := send_timeouts h @ [k], stream := Some s,
                    connected := True, streams_opened := Suc k\<rparr>))))"

definition connect :: "EventHub \<Rightarrow> (error + unit) \<times> EventHub" where
  "connect h = connect_internal False h"

text \<open>
  \<open>_checkConnection(throw_error, force_reconnect)\<close>. Both log lines read
  \<open>this.ep.getUrl()\<close>, which throws when no peer address is set. Under
  \<open>force_reconnect\<close> every throw inside the \<open>try\<close>, the first of them
  \<open>this.stream.isPaused()\<close> on a hub that has no stream, ends in
  \<open>disconnect()\<close> and the error \<open>Event_hub_is_not_connected\<close>.
\<close>

definition checkConnection :: "bool \<Rightarrow> bool \<Rightarrow> EventHub \<Rightarrow> (error + unit) \<times> EventHub" where
  "checkConnection throw_error force h =
     (case ep h of
        None \<Rightarrow> (Inl (TypeError ''this.ep.getUrl''), h)
      | Some remote \<Rightarrow>
          if \<not> connected h \<and> throw_error then (Inl Not_connected_to_event_source, h)
          else if force then
            (case stream h of
               None \<Rightarrow> (Inl Event_hub_is_not_connected, disconnect h)
             | Some s \<Rightarrow>
                 (let h1 = (if isPaused s
                            then do_call (Stream_resume (sid s)) (h\<lparr>stream := Some (s\<lparr>isPaused := False\<rparr>)\<rparr>)
                            else h)
                  in if connectivity_state s \<noteq> 2
                     then (case connect_internal True h1 of
                             (Inl e, h2) \<Rightarrow> (Inl Event_hub_is_not_connected, disconnect h2)
                           | (Inr u, h2) \<Rightarrow> (Inr (), h2))
                     else (Inr (), h1)))
          else (Inr (), h))"

definition registerChaincodeEvent ::
  "Protos \<Rightarrow> string \<Rightarrow> string \<Rightarrow> callback option \<Rightarrow> callback option \<Rightarrow> EventHub
     \<Rightarrow> (error + ChainCodeCBE) \<times> EventHub" where
  "registerChaincodeEvent P cc eventname on_event on_error h =
     (if cc = [] then (Inl (Missing_parameter ''ccid''), h)
      else if eventname = [] then (Inl (Missing_parameter ''eventname''), h)
      else case on_event of
        None \<Rightarrow> (Inl (Missing_parameter ''onEvent''), h)
      | Some ev \<Rightarrow>
          andThen (checkConnection (on_error = None) False h) (\<lambda>u h1.
            case RegExp_new P eventname of
              Inl e \<Rightarrow> (Inl e, h1)
            | Inr re \<Rightarrow>
                (let cbe = \<lparr>ref = objects_allocated h1, ccid = cc, eventNameFilter = re,
                             onEvent = ev, onError = on_error\<rparr>;
                     cbtable = (case ht_get (chaincodeRegistrants h1) cc of
                                  None \<Rightarrow> [] | Some t \<Rightarrow> t);
                     h2 = h1\<lparr>objects_allocated := Suc (objects_allocated h1),
                             chaincodeRegistrants :=
                               ht_put cc (cbtable @ [cbe]) (chaincodeRegistrants h1)\<rparr>
                 in if on_error = None then (Inr cbe, h2)
                    else andThen (checkConnection False (force_reconnect h2) h2)
                           (\<lambda>u h3. (Inr cbe, h3)))))"

definition unregisterChaincodeEvent ::
  "ChainCodeCBE option \<Rightarrow> EventHub \<Rightarrow> (error + unit) \<times> EventHub" where
  "unregisterChaincodeEvent handle h =
     (case handle of
        None \<Rightarrow> (Inl (Missing_parameter ''cbe''), h)
      | Some cbe \<Rightarrow>
          (case ht_get (chaincodeRegistrants h) (ccid cbe) of
             None \<Rightarrow> (Inr (), h)
           | Some cbtable \<Rightarrow>
               (let t = filter (\<lambda>c. ref c \<noteq> ref cbe) cbtable
                in (Inr (), h\<lparr>chaincodeRegistrants :=
                      (if length t \<le> 0 then ht_remove (ccid cbe) (chaincodeRegistrants h)
                       else ht_put (ccid cbe) t (chaincodeRegistrants h))\<rparr>))))"

definition registerBlockEvent ::
  "callback option \<Rightarrow> callback option \<Rightarrow> EventHub \<Rightarrow> (error + nat) \<times> EventHub" where
  "registerBlockEvent on_event on_error h =
     (case on_event of
        None \<Rightarrow> (Inl (Missing_parameter ''onEvent''), h)
      | Some ev \<Rightarrow>
          andThen (checkConnection (on_error = None) False h) (\<lambda>u h1.
            let block_registration_number = block_registrant_count h1;
                h2 = h1\<lparr>block_registrant_count := block_registration_number + 1,
                        blockOnEvents := ht_put block_registration_number ev (blockOnEvents h1)\<rparr>
            in case on_error of
                 None \<Rightarrow> (Inr block_registration_number, h2)
               | Some er \<Rightarrow>
                   andThen (checkConnection False (force_reconnect h2)
                              (h2\<lparr>blockOnErrors := ht_put block_registration_number er (blockOnErrors h2)\<rparr>))
                     (\<lambda>u h3. (Inr block_registration_number, h3))))"

definition unregisterBlockEvent :: "nat \<Rightarrow> EventHub \<Rightarrow> (error + unit) \<times> EventHub" where
  "unregisterBlockEvent block_registration_number h =
     (if block_registration_number = 0
      then (Inl (Missing_parameter ''block_registration_number''), h)
      else (Inr (), h\<lparr>blockOnEvents := ht_remove block_registration_number (blockOnEvents h),
                      blockOnErrors := ht_remove block_registration_number (blockOnErrors h)\<rparr>))"

definition registerTxEvent ::
  "string \<Rightarrow> callback option \<Rightarrow> callback option \<Rightarrow> EventHub \<Rightarrow> (error + unit) \<times> EventHub" where
  "registerTxEvent txid on_event on_error h =
     (if txid = [] then (Inl (Missing_parameter ''txid''), h)
      else case on_event of
        None \<Rightarrow> (Inl (Missing_parameter ''onEvent''), h)
      | Some ev \<Rightarrow>
          andThen (checkConnection (on_error = None) False h) (\<lambda>u h1.
            let h2 = h1\<lparr>transactionOnEvents := ht_put txid ev (transactionOnEvents h1)\<rparr>
            in case on_error of
                 None \<Rightarrow> (Inr (), h2)
               | Some er \<Rightarrow>
                   checkConnection False (force_reconnect h2)
                     (h2\<lparr>transactionOnErrors := ht_put txid er (transactionOnErrors h2)\<rparr>)))"

definition unregisterTxEvent :: "string \<Rightarrow> EventHub \<Rightarrow> (error + unit) \<times> EventHub" where
  "unregisterTxEvent txid h =
     (if txid = [] then (Inl (Missing_parameter ''txid''), h)
      else (Inr (), h\<lparr>transactionOnEvents := ht_remove txid (transactionOnEvents h),
                      transactionOnErrors := ht_remove txid (transactionOnErrors h)\<rparr>))"

subsection \<open>Dispatch of a block\<close>

definition processBlockOnEvents :: "Block \<Rightarrow> EventHub \<Rightarrow> EventHub" where
  "processBlockOnEvents block h =
     (if ht_size (blockOnEvents h) = 0 then h
      else h\<lparr>calls := calls h @ map (\<lambda>e. Block_callback (snd e) block) (blockOnEvents h)\<rparr>)"

text \<open>
  The loop of \<open>_processTxOnEvents\<close> over \<open>block.data.data\<close>, at envelope
  number \<open>i\<close> with the envelopes from there on. \<open>txStatusCodes\<close> is
  \<open>undefined\<close> when the metadata has no entry at the index, and reading an element
  of it throws.
\<close>

fun tx_loop ::
  "Protos \<Rightarrow> nat list option \<Rightarrow> Envelope list \<Rightarrow> nat \<Rightarrow> EventHub \<Rightarrow> (error + unit) \<times> EventHub" where
  "tx_loop P txStatusCodes [] i h = (Inr (), h)"
| "tx_loop P txStatusCodes (env # rest) i h =
     (case txStatusCodes of
        None \<Rightarrow> (Inl (TypeError ''txStatusCodes[index]''), h)
      | Some codes \<Rightarrow>
          (let val_code = convertValidationCode P (index codes i);
               txid = tx_id (channel_header env)
           in tx_loop P txStatusCodes rest (Suc i)
                (case ht_get (transactionOnEvents h) txid of
                   None \<Rightarrow> h
                 | Some cb \<Rightarrow> do_call (Tx_callback cb txid val_code) h)))"

definition processTxOnEvents :: "Protos \<Rightarrow> Block \<Rightarrow> EventHub \<Rightarrow> (error + unit) \<times> EventHub" where
  "processTxOnEvents P block h =
     (if ht_size (transactionOnEvents h) = 0 then (Inr (), h)
      else tx_loop P (index (metadata block) (TRANSACTIONS_FILTER P)) (data block) 0 h)"

text \<open>
  The reads from \<open>payload.data\<close> down to \<open>ccEvent.chaincode_id\<close>; the first one
  that meets \<open>undefined\<close> throws.
\<close>

definition ccEvent_of :: "Envelope \<Rightarrow> error + ChaincodeEvent" where
  "ccEvent_of env =
     (case payload_data env of
        Transaction actions \<Rightarrow>
          (case actions of
             [] \<Rightarrow> Inl (TypeError ''tx.actions[0].payload'')
           | a # as \<Rightarrow>
               (case events a of
                  None \<Rightarrow> Inl (TypeError ''ccEvent.chaincode_id'')
                | Some ccEvent \<Rightarrow> Inr ccEvent))
      | ConfigEnvelope \<Rightarrow> Inl (TypeError ''tx.actions[0]'')
      | Undecoded raw \<Rightarrow> Inl (TypeError ''tx.actions[0]''))"

text \<open>
  The loop of \<open>_processChainCodeOnEvents\<close>. A throw inside the \<open>try\<close> is logged
  and the loop goes on with the next envelope; the \<open>return\<close> taken when the
  chaincode id has no table leaves the method.
\<close>

fun cc_loop :: "Protos \<Rightarrow> Envelope list \<Rightarrow> EventHub \<Rightarrow> EventHub" where
  "cc_loop P [] h = h"
| "cc_loop P (env # rest) h =
     (if Some (header_type (channel_header env)) = header_types P 3
      then (case ccEvent_of env of
              Inl err \<Rightarrow> cc_loop P rest h
            | Inr ccEvent \<Rightarrow>
                (case ht_get (chaincodeRegistrants h) (chaincode_id ccEvent) of
                   None \<Rightarrow> h
                 | Some cbtable \<Rightarrow>
                     cc_loop P rest
                       (h\<lparr>calls := calls h
                            @ map (\<lambda>cbe. Chaincode_callback (onEvent cbe) ccEvent)
                                (filter (\<lambda>cbe. RegExp_test P (eventNameFilter cbe) (event_name ccEvent))
                                   cbtable)\<rparr>)))
      else cc_loop P rest h)"

definition processChainCodeOnEvents :: "Protos \<Rightarrow> Block \<Rightarrow> EventHub \<Rightarrow> EventHub" where
  "processChainCodeOnEvents P block h =
     (if ht_size (chaincodeRegistrants h) = 0 then h else cc_loop P (data block) h)"

subsection \<open>The handlers that \<open>_connect\<close> installs\<close>

text \<open>
  A message of the stream; a block message carries the block as
  \<open>BlockDecoder.decodeBlock\<close> returns it.
\<close>

datatype message = Block_message Block | Register_message | Unregister_message | Other_message string

definition clearTimeout :: "nat \<Rightarrow> EventHub \<Rightarrow> EventHub" where
  "clearTimeout k h = h\<lparr>send_timeouts := removeAll k (send_timeouts h)\<rparr>"

definition stream_on_data :: "Protos \<Rightarrow> nat \<Rightarrow> message \<Rightarrow> EventHub \<Rightarrow> (error + unit) \<times> EventHub" where
  "stream_on_data P k event h =
     (case event of
        Block_message block \<Rightarrow>
          andThen (processTxOnEvents P block (processBlockOnEvents block (clearTimeout k h)))
            (\<lambda>u h1. (Inr (), processChainCodeOnEvents P block h1))
      | Register_message \<Rightarrow> (Inr (), clearTimeout k h)
      | Unregister_message \<Rightarrow>
          (Inr (), if connected h then disconnect (clearTimeout k h) else clearTimeout k h)
      | Other_message name \<Rightarrow> (Inr (), clearTimeout k h))"

definition stream_on_end :: "nat \<Rightarrow> EventHub \<Rightarrow> EventHub" where
  "stream_on_end k h = (if connected h then disconnect (clearTimeout k h) else clearTimeout k h)"

definition stream_on_error :: "nat \<Rightarrow> EventHub \<Rightarrow> EventHub" where
  "stream_on_error k h = (if connected h then disconnect (clearTimeout k h) else clearTimeout k h)"

text \<open>
  The function given to \<open>setTimeout\<close>: it runs if its timer is still armed, and a
  timer that has fired is armed no more.
\<close>

definition send_timeout_expired :: "nat \<Rightarrow> EventHub \<Rightarrow> EventHub" where
  "send_timeout_expired k h =
     (if k \<in> set (send_timeouts h) then disconnect (clearTimeout k h) else h)"

subsection \<open>Runs of a hub\<close>

text \<open>
  What can happen to a hub: a call of its interface, an assignment to its public
  field \<open>force_reconnect\<close>, a signal of one of the streams it opened, the expiry
  of a timer, or a change of what the current stream answers to \<open>isPaused()\<close> and
  about its connectivity.
\<close>

datatype operation =
    SetPeerAddr Remote
  | Connect
  | Disconnect
  | RegisterChaincodeEvent string string "callback option" "callback option"
  | UnregisterChaincodeEvent "ChainCodeCBE option"
  | RegisterBlockEvent "callback option" "callback option"
  | UnregisterBlockEvent nat
  | RegisterTxEvent string "callback option" "callback option"
  | UnregisterTxEvent string
  | Set_force_reconnect bool
  | Data nat message
  | End nat
  | Stream_error nat
  | Timeout nat
  | Stream_status bool nat

datatype outcome = Done | Number nat | Handle ChainCodeCBE

definition returning :: "('a \<Rightarrow> outcome) \<Rightarrow> (error + 'a) \<times> EventHub \<Rightarrow> (error + outcome) \<times> EventHub" where
  "returning f m = (case m of (Inl e, h) \<Rightarrow> (Inl e, h) | (Inr a, h) \<Rightarrow> (Inr (f a), h))"

definition step :: "Protos \<Rightarrow> operation \<Rightarrow> EventHub \<Rightarrow> (error + outcome) \<times> EventHub" where
  "step P oper h =
     (case oper of
        SetPeerAddr remote \<Rightarrow> (Inr Done, setPeerAddr remote h)
      | Connect \<Rightarrow> returning (\<lambda>u. Done) (connect h)
      | Disconnect \<Rightarrow> (Inr Done, disconnect h)
      | RegisterChaincodeEvent cc eventname on_event on_error \<Rightarrow>
          returning Handle (registerChaincodeEvent P cc eventname on_event on_error h)
      | UnregisterChaincodeEvent cbe \<Rightarrow> returning (\<lambda>u. Done) (unregisterChaincodeEvent cbe h)
      | RegisterBlockEvent on_event on_error \<Rightarrow>
          returning Number (registerBlockEvent on_event on_error h)
      | UnregisterBlockEvent n \<Rightarrow> returning (\<lambda>u. Done) (unregisterBlockEvent n h)
      | RegisterTxEvent txid on_event on_error \<Rightarrow>
          returning (\<lambda>u. Done) (registerTxEvent txid on_event on_error h)
      | UnregisterTxEvent txid \<Rightarrow> returning (\<lambda>u. Done) (unregisterTxEvent txid h)
      | Set_force_reconnect b \<Rightarrow> (Inr Done, h\<lparr>force_reconnect := b\<rparr>)
      | Data k event \<Rightarrow>
          (if k < streams_opened h then returning (\<lambda>u. Done) (stream_on_data P k event h)
           else (Inr Done, h))
      | End k \<Rightarrow> (Inr Done, if k < streams_opened h then stream_on_end k h else h)
      | Stream_error k \<Rightarrow> (Inr Done, if k < streams_opened h then stream_on_error k h else h)
      | Timeout k \<Rightarrow> (Inr Done, send_timeout_expired k h)
      | Stream_status paused state \<Rightarrow>
          (Inr Done,
           h\<lparr>stream := map_option (\<lambda>s. s\<lparr>isPaused := paused, connectivity_state := state\<rparr>)
                          (stream h)\<rparr>))"

fun run :: "Protos \<Rightarrow> operation list \<Rightarrow> EventHub \<Rightarrow> (error + outcome) list \<times> EventHub" where
  "run P [] h = ([], h)"
| "run P (oper # opers) h =
     (case step P oper h of
        (r, h1) \<Rightarrow> (case run P opers h1 of (rs, h2) \<Rightarrow> (r # rs, h2)))"

section \<open>The policy decoder\<close>

text \<open>
  Modelled from the spec: \<open>decodeConfigPolicy\<close> of Block.js, which the sources hold
  only the test of. The spec's contract is
  \<open>decodePolicy(policyField) -> DecodedPolicy\<close>: a \<open>SIGNATURE\<close> (1) or an
  \<open>IMPLICIT_META\<close> (3) value is decoded, an \<open>MSP\<close> (2) value gives a
  placeholder and a warning that names the policy and the type, and any other type
  fails with \<open>UnknownPolicyTypeError\<close>. The diagnostics are returned beside the
  result. The decoders of the two wire formats are parameters.
\<close>

datatype implicit_rule = ANY | ALL | MAJORITY

datatype signature_rule = Signed_by nat | N_out_of nat "signature_rule list"

datatype policy_value =
    Signature_policy signature_rule "string list"
  | Implicit_meta_policy string implicit_rule

datatype decode_error = UnknownPolicyTypeError | DecodeError string

datatype diagnostic = Warning (about_policy: string) (about_type: string)

record ConfigPolicy =
  policy_name :: string
  policy_type :: int
  policy_bytes :: string

record DecodedPolicy =
  decoded_type :: string
  decoded_value :: "policy_value option"

record Wire =
  decodeSignaturePolicyEnvelope :: "string \<Rightarrow> decode_error + policy_value"
  decodeImplicitMetaPolicy :: "string \<Rightarrow> decode_error + policy_value"

definition decoded_as :: "string \<Rightarrow> decode_error + policy_value \<Rightarrow> decode_error + DecodedPolicy" where
  "decoded_as name r =
     (case r of
        Inl e \<Rightarrow> Inl e
      | Inr v \<Rightarrow> Inr \<lparr>decoded_type = name, decoded_value = Some v\<rparr>)"

text \<open>
  Modelled from the spec: the body of \<open>decodeConfigPolicy\<close> (Block.js, not in the
  sources), as the contract of \<open>decodePolicy\<close> in the spec's section on the policy
  decoder gives it.
\<close>

definition decodePolicy ::
  "Wire \<Rightarrow> ConfigPolicy \<Rightarrow> (decode_error + DecodedPolicy) \<times> diagnostic list" where
  "decodePolicy W policyField =
     (if policy_type policyField = 1
      then (decoded_as ''SIGNATURE''
              (decodeSignaturePolicyEnvelope W (policy_bytes policyField)), [])
      else if policy_type policyField = 2
      then (Inr \<lparr>decoded_type = ''MSP'', decoded_value = None\<rparr>,
            [Warning (policy_name policyField) ''MSP''])
      else if policy_type policyField = 3
      then (decoded_as ''IMPLICIT_META''
              (decodeImplicitMetaPolicy W (policy_bytes policyField)), [])
      else (Inl UnknownPolicyTypeError, []))"

section \<open>What the claims are stated against\<close>


text \<open>
  The chaincode pass, envelope by envelope, against a table of registrations:
  \<open>envelope_calls\<close> is what the dispatch of one envelope owes (for an endorser
  transaction whose chaincode event can be read, the onEvent of every registration
  for its chaincode id whose filter accepts the event name, in the order of the
  registrations; nothing for any other envelope), and \<open>stops_pass\<close> holds of an
  endorser transaction whose chaincode event can be read and whose chaincode id has
  no registrations.
\<close>

definition envelope_calls ::
  "Protos \<Rightarrow> (string, ChainCodeCBE list) HashTable \<Rightarrow> Envelope \<Rightarrow> call list" where
  "envelope_calls P registry env =
     (if Some (header_type (channel_header env)) = header_types P 3
      then (case ccEvent_of env of
              Inl err \<Rightarrow> []
            | Inr ccEvent \<Rightarrow>
                (case ht_get registry (chaincode_id ccEvent) of
                   None \<Rightarrow> []
                 | Some cbtable \<Rightarrow>
                     map (\<lambda>cbe. Chaincode_callback (onEvent cbe) ccEvent)
                       (filter (\<lambda>cbe. RegExp_test P (eventNameFilter cbe) (event_name ccEvent))
                          cbtable)))
      else [])"

definition stops_pass ::
  "Protos \<Rightarrow> (string, ChainCodeCBE list) HashTable \<Rightarrow> Envelope \<Rightarrow> bool" where
  "stops_pass P registry env =
     (Some (header_type (channel_header env)) = header_types P 3
      \<and> (case ccEvent_of env of
            Inl err \<Rightarrow> False
          | Inr ccEvent \<Rightarrow> ht_get registry (chaincode_id ccEvent) = None))"

text \<open>
  The reconnect that a registration with an onError callback attempts through
  \<open>_checkConnection(false, true)\<close>, on a hub \<open>h\<close> whose stream is \<open>s\<close>,
  seen from the hub \<open>h'\<close> it leaves: a paused stream is resumed, and unless the
  channel of the stream reports state 2 (ready) a new stream is opened, the
  registration message is written to it and the hub is marked connected.
\<close>

definition reconnect_attempted :: "Stream \<Rightarrow> EventHub \<Rightarrow> EventHub \<Rightarrow> bool" where
  "reconnect_attempted s h h' =
     (connected h' = (connectivity_state s \<noteq> 2)
      \<and> streams_opened h' =
          (if connectivity_state s \<noteq> 2 then Suc (streams_opened h) else streams_opened h)
      \<and> calls h' =
          calls h
          @ (if isPaused s then [Stream_resume (sid s)] else [])
          @ (if connectivity_state s \<noteq> 2
             then [Stream_write (streams_opened h)
                     (SignedEvent (Event True (identity (userContext h))) (identity (userContext h)))]
             else []))"

text \<open>
  The hub \<open>h'\<close> has been shut down by \<open>disconnect()\<close> and the callback
  \<open>er\<close> has been told so.
\<close>

definition shut_down_with :: "callback \<Rightarrow> EventHub \<Rightarrow> bool" where
  "shut_down_with er h' =
     (\<not> connected h'
      \<and> Error_callback er EventHub_has_been_shutdown \<in> set (calls h')
      \<and> blockOnEvents h' = [] \<and> blockOnErrors h' = []
      \<and> transactionOnEvents h' = [] \<and> transactionOnErrors h' = []
      \<and> chaincodeRegistrants h' = [])"

text \<open>
  Two relations between a hub and a later one, for the proofs about block
  registration numbers: \<open>block_frame\<close> holds when the counter is unchanged and the
  table of block callbacks is unchanged or has been cleared; \<open>block_handles_ok\<close>
  says that the keys of the table are distinct numbers from 1 up to, and not
  including, the counter.
\<close>

definition block_frame :: "EventHub \<Rightarrow> EventHub \<Rightarrow> bool" where
  "block_frame h h' =
     (block_registrant_count h' = block_registrant_count h
      \<and> (blockOnEvents h' = blockOnEvents h \<or> blockOnEvents h' = []))"

definition block_handles_ok :: "EventHub \<Rightarrow> bool" where
  "block_handles_ok h =
     (1 \<le> block_registrant_count h
      \<and> distinct (map fst (blockOnEvents h))
      \<and> list_all (\<lambda>k. 1 \<le> k \<and> k < block_registrant_count h) (map fst (blockOnEvents h)))"

text \<open>
  An instance of the parameter (the examples use patterns that the model reads
  itself, so its two \<open>RegExp\<close> fields are not consulted), a hub that has been given
  a peer address and has connected, an envelope of an endorser transaction that
  carries a chaincode event and the envelope of a configuration transaction: the
  inputs of the examples.
\<close>

definition example_protos :: Protos where
  "example_protos =
     \<lparr>TxValidationCode = [(''VALID'', 0), (''NIL_ENVELOPE'', 1), (''BAD_PAYLOAD'', 2)],
      HeaderType = [(''MESSAGE'', 0), (''CONFIG'', 1), (''CONFIG_UPDATE'', 2),
                    (''ENDORSER_TRANSACTION'', 3)],
      TRANSACTIONS_FILTER = 1,
      native_compiles = (\<lambda>p. False), native_test = (\<lambda>p s. False)\<rparr>"

definition example_remote :: Remote where
  "example_remote = \<lparr>url = ''grpc://localhost:7053'', request_timeout = 45000\<rparr>"

definition example_hub :: EventHub where
  "example_hub = snd (connect (setPeerAddr example_remote (new_hub \<lparr>identity = ''admin''\<rparr>)))"

definition endorser_envelope :: "string \<Rightarrow> string \<Rightarrow> string \<Rightarrow> Envelope" where
  "endorser_envelope txid cc name =
     \<lparr>channel_header =
        \<lparr>header_type = ''ENDORSER_TRANSACTION'', tx_id = txid, channel_id = ''mychannel''\<rparr>,
      payload_data =
        Transaction [\<lparr>events = Some \<lparr>chaincode_id = cc, event_tx_id = txid,
                                      event_name = name, event_payload = []\<rparr>\<rparr>],
      signature = []\<rparr>"

definition config_envelope :: Envelope where
  "config_envelope =
     \<lparr>channel_header = \<lparr>header_type = ''CONFIG'', tx_id = '''', channel_id = ''mychannel''\<rparr>,
      payload_data = ConfigEnvelope,
      signature = []\<rparr>"

section \<open>Regular expressions: the matcher against the language\<close>

lemma nullable_iff: "nullable r \<longleftrightarrow> [] \<in> lang r"
  by (induction r) (auto simp: conc_def intro: star.intros)

lemma conc_Cons_iff:
  "c # s \<in> conc A B \<longleftrightarrow>
     (\<exists>u v. s = u @ v \<and> c # u \<in> A \<and> v \<in> B) \<or> ([] \<in> A \<and> c # s \<in> B)"
  unfolding conc_def
  by (auto simp: Cons_eq_append_conv)

lemma star_Cons_split:
  "w \<in> star A \<Longrightarrow> w = c # s \<Longrightarrow> \<exists>u v. s = u @ v \<and> c # u \<in> A \<and> v \<in> star A"
proof (induction rule: star.induct)
  case star_empty
  then show ?case by simp
next
  case (star_step u v)
  show ?case
  proof (cases u)
    case Nil
    with star_step show ?thesis by simp
  next
    case (Cons a u')
    with star_step.prems have "a = c" and "s = u' @ v" by simp_all
    with star_step.hyps(1,2) Cons show ?thesis by blast
  qed
qed

lemma star_Cons_iff:
  "c # s \<in> star A \<longleftrightarrow> (\<exists>u v. s = u @ v \<and> c # u \<in> A \<and> v \<in> star A)"
proof
  assume "c # s \<in> star A"
  then show "\<exists>u v. s = u @ v \<and> c # u \<in> A \<and> v \<in> star A"
    by (rule star_Cons_split) simp
next
  assume "\<exists>u v. s = u @ v \<and> c # u \<in> A \<and> v \<in> star A"
  then obtain u v where "s = u @ v" "c # u \<in> A" "v \<in> star A" by blast
  then have "(c # u) @ v \<in> star A" by (intro star.star_step)
  with \<open>s = u @ v\<close> show "c # s \<in> star A" by simp
qed

lemma lang_deriv: "s \<in> lang (deriv c r) \<longleftrightarrow> c # s \<in> lang r"
proof (induction r arbitrary: s)
  case (Seq r1 r2)
  then show ?case
    by (auto simp: conc_Cons_iff nullable_iff) (auto simp: conc_def)
next
  case (Star r)
  then show ?case
    by (auto simp: star_Cons_iff conc_def)
qed auto

lemma match_prefix_iff: "match_prefix r s \<longleftrightarrow> (\<exists>u v. s = u @ v \<and> u \<in> lang r)"
proof (induction s arbitrary: r)
  case Nil
  then show ?case by (simp add: nullable_iff)
next
  case (Cons c cs)
  note IH = Cons.IH
  show ?case
  proof
    assume "match_prefix r (c # cs)"
    then consider "nullable r" | "match_prefix (deriv c r) cs" by auto
    then show "\<exists>u v. c # cs = u @ v \<and> u \<in> lang r"
    proof cases
      case 1
      then have "c # cs = [] @ (c # cs) \<and> [] \<in> lang r" by (simp add: nullable_iff)
      then show ?thesis by blast
    next
      case 2
      then obtain u v where "cs = u @ v" "u \<in> lang (deriv c r)" using IH by blast
      then have "c # cs = (c # u) @ v \<and> c # u \<in> lang r" by (simp add: lang_deriv)
      then show ?thesis by blast
    qed
  next
    assume "\<exists>u v. c # cs = u @ v \<and> u \<in> lang r"
    then obtain u v where uv: "c # cs = u @ v" "u \<in> lang r" by blast
    show "match_prefix r (c # cs)"
    proof (cases u)
      case Nil
      with uv have "nullable r" by (simp add: nullable_iff)
      then show ?thesis by simp
    next
      case (Cons a u')
      with uv have "cs = u' @ v" "u' \<in> lang (deriv c r)" by (simp_all add: lang_deriv)
      then have "match_prefix (deriv c r) cs" using IH by blast
      then show ?thesis by simp
    qed
  qed
qed

lemma search_iff:
  "search r s \<longleftrightarrow> (\<exists>p u v. s = p @ u @ v \<and> u \<in> lang r)"
proof (induction s)
  case Nil
  then show ?case by (simp add: nullable_iff)
next
  case (Cons c cs)
  note IH = Cons.IH
  show ?case
  proof
    assume "search r (c # cs)"
    then consider "match_prefix r (c # cs)" | "search r cs" by auto
    then show "\<exists>p u v. c # cs = p @ u @ v \<and> u \<in> lang r"
    proof cases
      case 1
      then obtain u v where "c # cs = [] @ u @ v \<and> u \<in> lang r"
        by (auto simp: match_prefix_iff)
      then show ?thesis by blast
    next
      case 2
      then obtain p u v where "cs = p @ u @ v" "u \<in> lang r" using IH by blast
      then have "c # cs = (c # p) @ u @ v \<and> u \<in> lang r" by simp
      then show ?thesis by blast
    qed
  next
    assume "\<exists>p u v. c # cs = p @ u @ v \<and> u \<in> lang r"
    then obtain p u v where puv: "c # cs = p @ u @ v" "u \<in> lang r" by blast
    show "search r (c # cs)"
    proof (cases p)
      case Nil
      with puv have "match_prefix r (c # cs)" by (auto simp: match_prefix_iff)
      then show ?thesis by simp
    next
      case (Cons a p')
      with puv have "cs = p' @ u @ v" by simp
      with puv(2) have "search r cs" using IH by blast
      then show ?thesis by simp
    qed
  qed
qed

lemma lang_literal: "lang (literal w) = {w}"
  by (induction w) (auto simp: conc_def)

lemma search_literal: "search (literal w) s \<longleftrightarrow> sublist w s"
  by (auto simp: search_iff lang_literal sublist_def)

lemma search_any: "search (Seq (Star Dot) One) s"
  by (cases s) simp_all

lemma RegExp_test_Parsed: "RegExp_test P (Parsed r) s = search r s"
  by (simp add: RegExp_test_def)

lemma RegExp_test_iff:
  "RegExp_test P (Parsed r) s \<longleftrightarrow> (\<exists>p u v. s = p @ u @ v \<and> u \<in> lang r)"
  by (simp add: RegExp_test_def search_iff)

lemma RegExp_test_literal: "RegExp_test P (Parsed (literal w)) s \<longleftrightarrow> sublist w s"
  by (simp add: RegExp_test_def search_literal)

lemma RegExp_new_evtA: "RegExp_new P ''evtA'' = Inr (Parsed (literal ''evtA''))"
  by (simp add: RegExp_new_def in_fragment_def metachar_def seq_with_def)

lemma RegExp_new_any: "RegExp_new P ''.*'' = Inr (Parsed (Seq (Star Dot) One))"
  by (simp add: RegExp_new_def in_fragment_def metachar_def seq_with_def)

lemma RegExp_test_any: "RegExp_test P (Parsed (Seq (Star Dot) One)) s"
  by (simp add: RegExp_test_def search_any)

section \<open>The transaction pass\<close>


lemma example_hub_eq:
  "example_hub =
     \<lparr>chaincodeRegistrants = [], block_registrant_count = 1,
      blockOnEvents = [], blockOnErrors = [],
      transactionOnEvents = [], transactionOnErrors = [],
      ep = Some example_remote,
      stream = Some \<lparr>sid = 0, isPaused = False, connectivity_state = 0\<rparr>,
      connected = True, force_reconnect = True,
      userContext = \<lparr>identity = ''admin''\<rparr>, send_timeouts = [0], streams_opened = 1,
      objects_allocated = 0,
      calls = [Stream_write 0 (SignedEvent (Event True ''admin'') ''admin'')]\<rparr>"
  by (simp add: example_hub_def connect_def connect_internal_def setPeerAddr_def new_hub_def
      sendRegistration_def do_call_def)

lemmas eval_defs = step_def returning_def setPeerAddr_def connect_def connect_internal_def
  disconnect_def closeAllCallbacks_def sendRegistration_def do_call_def checkConnection_def
  registerBlockEvent_def unregisterBlockEvent_def registerTxEvent_def andThen_def Let_def
  ht_remove_def stream_on_end_def stream_on_error_def send_timeout_expired_def clearTimeout_def



section \<open>Disconnecting\<close>

text \<open>
  C4. \<open>disconnect()\<close> marks the hub disconnected; it calls every onError callback
  of the block registry, of the transaction registry and of the chaincode
  registrations that have one, each with the shutdown error; if the hub has a stream
  it then writes the unregister message to it and ends it; and it leaves the three
  registries empty, so that a dispatch of any block on the hub it leaves calls nothing.
\<close>

theorem disconnect_closes_all:
  "\<not> connected (disconnect h)
   \<and> calls (disconnect h) =
       calls h
       @ map (\<lambda>e. Error_callback (snd e) EventHub_has_been_shutdown) (blockOnErrors h)
       @ map (\<lambda>e. Error_callback (snd e) EventHub_has_been_shutdown) (transactionOnErrors h)
       @ concat (map (\<lambda>e. List.map_filter
             (\<lambda>cbe. map_option (\<lambda>cb. Error_callback cb EventHub_has_been_shutdown) (onError cbe)) (snd e))
           (chaincodeRegistrants h))
       @ (case stream h of
            None \<Rightarrow> []
          | Some s \<Rightarrow>
              [Stream_write (sid s)
                 (SignedEvent (Event False (identity (userContext h))) (identity (userContext h))),
               Stream_end (sid s)])
   \<and> blockOnEvents (disconnect h) = [] \<and> blockOnErrors (disconnect h) = []
   \<and> transactionOnEvents (disconnect h) = [] \<and> transactionOnErrors (disconnect h) = []
   \<and> chaincodeRegistrants (disconnect h) = []
   \<and> (\<forall>P block.
         processBlockOnEvents block (disconnect h) = disconnect h
         \<and> processTxOnEvents P block (disconnect h) = (Inr (), disconnect h)
         \<and> processChainCodeOnEvents P block (disconnect h) = disconnect h)"
  by (cases "stream h")
     (simp_all add: disconnect_def closeAllCallbacks_def sendRegistration_def do_call_def
        processBlockOnEvents_def processTxOnEvents_def processChainCodeOnEvents_def ht_size_def)

text \<open>
  A hub with a block listener, a transaction listener and two chaincode listeners,
  one without an onError callback: the three onError callbacks are called, then the
  stream is told and ended.
\<close>

theorem disconnect_closes_all_witness:
  "calls (disconnect (snd (run example_protos
      [Stream_status False 2,
       RegisterBlockEvent (Some ''onBlock'') (Some ''onBlockError''),
       RegisterTxEvent ''tx1'' (Some ''onTx'') (Some ''onTxError''),
       RegisterChaincodeEvent ''mycc'' ''evtA'' (Some ''onEvtA'') (Some ''onEvtAError''),
       RegisterChaincodeEvent ''mycc'' ''.*'' (Some ''onAny'') None]
      example_hub)))
   = [Stream_write 0 (SignedEvent (Event True ''admin'') ''admin''),
      Error_callback ''onBlockError'' EventHub_has_been_shutdown,
      Error_callback ''onTxError'' EventHub_has_been_shutdown,
      Error_callback ''onEvtAError'' EventHub_has_been_shutdown,
      Stream_write 0 (SignedEvent (Event False ''admin'') ''admin''),
      Stream_end 0]
   \<and> chaincodeRegistrants (disconnect (snd (run example_protos
      [Stream_status False 2,
       RegisterBlockEvent (Some ''onBlock'') (Some ''onBlockError''),
       RegisterTxEvent ''tx1'' (Some ''onTx'') (Some ''onTxError''),
       RegisterChaincodeEvent ''mycc'' ''evtA'' (Some ''onEvtA'') (Some ''onEvtAError''),
       RegisterChaincodeEvent ''mycc'' ''.*'' (Some ''onAny'') None]
      example_hub))) = []"
proof -
  let ?h = "snd (run example_protos
      [Stream_status False 2,
       RegisterBlockEvent (Some ''onBlock'') (Some ''onBlockError''),
       RegisterTxEvent ''tx1'' (Some ''onTx'') (Some ''onTxError''),
       RegisterChaincodeEvent ''mycc'' ''evtA'' (Some ''onEvtA'') (Some ''onEvtAError''),
       RegisterChaincodeEvent ''mycc'' ''.*'' (Some ''onAny'') None]
      example_hub)"
  have h: "?h = example_hub
      \<lparr>chaincodeRegistrants :=
         [(''mycc'', [\<lparr>ref = 0, ccid = ''mycc'', eventNameFilter = Parsed (literal ''evtA''),
                       onEvent = ''onEvtA'', onError = Some ''onEvtAError''\<rparr>,
                     \<lparr>ref = 1, ccid = ''mycc'', eventNameFilter = Parsed (Seq (Star Dot) One),
                       onEvent = ''onAny'', onError = None\<rparr>])],
       block_registrant_count := 2,
       blockOnEvents := [(1, ''onBlock'')], blockOnErrors := [(1, ''onBlockError'')],
       transactionOnEvents := [(''tx1'', ''onTx'')], transactionOnErrors := [(''tx1'', ''onTxError'')],
       stream := Some \<lparr>sid = 0, isPaused = False, connectivity_state = 2\<rparr>,
       objects_allocated := 2\<rparr>"
    by (simp add: eval_defs registerChaincodeEvent_def ht_get_def RegExp_new_def in_fragment_def
        metachar_def seq_with_def example_hub_eq)
  from disconnect_closes_all [of ?h] show ?thesis
    unfolding h by (simp add: example_hub_eq List.map_filter_def)
qed

section \<open>The chaincode pass\<close>

lemma ht_get_put_same: "ht_get (ht_put k v t) k = Some v"
  by (induction t) (auto simp: ht_get_def)

lemma checkConnection_keeps_chaincodes:
  "checkConnection t f h = (Inr u, h') \<Longrightarrow>
     chaincodeRegistrants h' = chaincodeRegistrants h
     \<and> objects_allocated h' = objects_allocated h
     \<and> force_reconnect h' = force_reconnect h"
  by (auto simp: checkConnection_def connect_internal_def sendRegistration_def do_call_def
      Let_def split: option.splits if_splits)

lemma registerChaincodeEvent_returns:
  assumes "registerChaincodeEvent P cc name (Some ev) er h = (Inr cbe, h')"
  shows "RegExp_new P name = Inr (eventNameFilter cbe)
           \<and> onEvent cbe = ev
           \<and> chaincodeRegistrants h' =
                ht_put cc ((case ht_get (chaincodeRegistrants h) cc of None \<Rightarrow> [] | Some t \<Rightarrow> t) @ [cbe])
                  (chaincodeRegistrants h)"
proof -
  from assms obtain u h1 where c1: "checkConnection (er = None) False h = (Inr u, h1)"
    by (auto simp: registerChaincodeEvent_def andThen_def split: if_splits sum.splits prod.splits)
  note k1 = checkConnection_keeps_chaincodes [OF c1]
  from assms c1 obtain re where re: "RegExp_new P name = Inr re"
    by (auto simp: registerChaincodeEvent_def andThen_def split: if_splits sum.splits prod.splits)
  let ?cbe = "\<lparr>ref = objects_allocated h1, ccid = cc, eventNameFilter = re,
                 onEvent = ev, onError = er\<rparr>"
  let ?h2 = "h1\<lparr>objects_allocated := Suc (objects_allocated h1),
                 chaincodeRegistrants :=
                   ht_put cc ((case ht_get (chaincodeRegistrants h1) cc of None \<Rightarrow> [] | Some t \<Rightarrow> t) @ [?cbe])
                     (chaincodeRegistrants h1)\<rparr>"
  show ?thesis
  proof (cases er)
    case None
    with assms c1 re have "cbe = ?cbe" "h' = ?h2"
      by (auto simp: registerChaincodeEvent_def andThen_def Let_def split: if_splits)
    with k1 re show ?thesis by simp
  next
    case (Some e)
    with assms c1 re obtain u2 where c2: "checkConnection False (force_reconnect ?h2) ?h2 = (Inr u2, h')"
      and "cbe = ?cbe"
      by (auto simp: registerChaincodeEvent_def andThen_def Let_def split: if_splits sum.splits prod.splits)
    with checkConnection_keeps_chaincodes [OF c2] k1 re show ?thesis by simp
  qed
qed

lemma header_types_example: "header_types example_protos 3 = Some ''ENDORSER_TRANSACTION''"
  by (simp add: header_types_def invert_enum_def example_protos_def)

lemma ccEvent_of_endorser_envelope:
  "ccEvent_of (endorser_envelope txid cc name) =
     Inr \<lparr>chaincode_id = cc, event_tx_id = txid, event_name = name, event_payload = []\<rparr>"
  by (simp add: ccEvent_of_def endorser_envelope_def)

lemma register_evtA_example:
  "registerChaincodeEvent example_protos ''mycc'' ''evtA'' (Some ''onA'') None example_hub =
     (Inr \<lparr>ref = 0, ccid = ''mycc'', eventNameFilter = Parsed (literal ''evtA''), onEvent = ''onA'',
            onError = None\<rparr>,
      example_hub\<lparr>objects_allocated := 1,
        chaincodeRegistrants :=
          [(''mycc'', [\<lparr>ref = 0, ccid = ''mycc'', eventNameFilter = Parsed (literal ''evtA''),
                        onEvent = ''onA'', onError = None\<rparr>])]\<rparr>)"
  by (simp add: registerChaincodeEvent_def andThen_def checkConnection_def example_hub_eq
      ht_get_def RegExp_new_def in_fragment_def metachar_def seq_with_def Let_def)

lemma register_any_example:
  "registerChaincodeEvent example_protos ''mycc'' ''.*'' (Some ''onAny'') None
     (example_hub\<lparr>objects_allocated := 1,
        chaincodeRegistrants :=
          [(''mycc'', [\<lparr>ref = 0, ccid = ''mycc'', eventNameFilter = Parsed (literal ''evtA''),
                        onEvent = ''onA'', onError = None\<rparr>])]\<rparr>) =
     (Inr \<lparr>ref = 1, ccid = ''mycc'', eventNameFilter = Parsed (Seq (Star Dot) One),
            onEvent = ''onAny'', onError = None\<rparr>,
      example_hub\<lparr>objects_allocated := 2,
        chaincodeRegistrants :=
          [(''mycc'', [\<lparr>ref = 0, ccid = ''mycc'', eventNameFilter = Parsed (literal ''evtA''),
                        onEvent = ''onA'', onError = None\<rparr>,
                      \<lparr>ref = 1, ccid = ''mycc'', eventNameFilter = Parsed (Seq (Star Dot) One),
                        onEvent = ''onAny'', onError = None\<rparr>])]\<rparr>)"
  by (simp add: registerChaincodeEvent_def andThen_def checkConnection_def example_hub_eq
      ht_get_def RegExp_new_def in_fragment_def metachar_def seq_with_def Let_def)

text \<open>
  What the pass does to a hub, for every block: it goes through the envelopes up to
  the first endorser transaction whose chaincode id has no registrations, and adds
  for each of them the calls that its dispatch owes.
\<close>

lemma envelope_calls_no_registry: "envelope_calls P [] env = []"
  by (simp add: envelope_calls_def ht_get_def split: sum.splits)

lemma envelope_calls_empty: "concat (map (envelope_calls P []) envs) = []"
  by (induction envs) (simp_all add: envelope_calls_no_registry)

lemma cc_loop_step:
  "cc_loop P (env # rest) h =
     (if stops_pass P (chaincodeRegistrants h) env then h
      else cc_loop P rest (h\<lparr>calls := calls h @ envelope_calls P (chaincodeRegistrants h) env\<rparr>))"
  by (simp add: envelope_calls_def stops_pass_def split: sum.splits option.splits)

lemma cc_loop_exact:
  "cc_loop P envs h =
     h\<lparr>calls := calls h
          @ concat (map (envelope_calls P (chaincodeRegistrants h))
              (takeWhile (\<lambda>e. \<not> stops_pass P (chaincodeRegistrants h) e) envs))\<rparr>"
proof (induction envs arbitrary: h)
  case Nil
  show ?case by simp
next
  case (Cons env rest)
  note IH = Cons.IH
  show ?case
    unfolding cc_loop_step by (simp add: IH)
qed

lemma processChainCodeOnEvents_exact:
  "processChainCodeOnEvents P block h =
     h\<lparr>calls := calls h
          @ concat (map (envelope_calls P (chaincodeRegistrants h))
              (takeWhile (\<lambda>e. \<not> stops_pass P (chaincodeRegistrants h) e) (data block)))\<rparr>"
proof (cases "chaincodeRegistrants h = []")
  case True
  have "concat (map (envelope_calls P [])
          (takeWhile (\<lambda>e. \<not> stops_pass P [] e) (data block))) = []"
    by (rule envelope_calls_empty)
  with True show ?thesis
    by (simp add: processChainCodeOnEvents_def ht_size_def)
next
  case False
  then show ?thesis
    by (simp add: processChainCodeOnEvents_def ht_size_def cc_loop_exact)
qed

text \<open>
  An envelope of the block is reached by the pass when no envelope before it stops
  the pass; then its calls are made, after those of the envelopes before it. When
  an envelope before it stops the pass, the calls are those of the envelopes before
  that one, and none is made for the envelope or for the ones that follow it.
\<close>

lemma chaincode_pass_arrives:
  assumes "data block = before @ env # after"
    and "\<forall>e \<in> set before. \<not> stops_pass P (chaincodeRegistrants h) e"
    and "\<not> stops_pass P (chaincodeRegistrants h) env"
  shows "calls (processChainCodeOnEvents P block h) =
           calls h
           @ concat (map (envelope_calls P (chaincodeRegistrants h)) before)
           @ envelope_calls P (chaincodeRegistrants h) env
           @ concat (map (envelope_calls P (chaincodeRegistrants h))
               (takeWhile (\<lambda>e. \<not> stops_pass P (chaincodeRegistrants h) e) after))"
  using assms by (simp add: processChainCodeOnEvents_exact takeWhile_append2)

lemma chaincode_pass_stopped:
  assumes "data block = before @ env # after"
    and "\<exists>e \<in> set before. stops_pass P (chaincodeRegistrants h) e"
  shows "calls (processChainCodeOnEvents P block h) =
           calls h
           @ concat (map (envelope_calls P (chaincodeRegistrants h))
               (takeWhile (\<lambda>e. \<not> stops_pass P (chaincodeRegistrants h) e) before))"
  using assms by (auto simp add: processChainCodeOnEvents_exact takeWhile_append1)

text \<open>
  C1. The chaincode pass does not go through every envelope: at the first endorser
  transaction whose chaincode id has no registration set it returns. On the example
  hub with one registration for \<open>mycc\<close> (filter \<open>.*\<close>), a block whose first
  envelope carries an event of chaincode \<open>other\<close> and whose second carries one of
  \<open>mycc\<close> leads to no call at all; with the two envelopes in the other order the
  callback is called.
\<close>

theorem chaincode_pass_stops_at_unregistered_chaincode:
  "calls (processChainCodeOnEvents example_protos
            \<lparr>number = 5,
             data = [endorser_envelope ''tx1'' ''other'' ''evt'', endorser_envelope ''tx2'' ''mycc'' ''evt''],
             metadata = [[], [0, 0]]\<rparr>
            (snd (registerChaincodeEvent example_protos ''mycc'' ''.*'' (Some ''onAny'') None
               example_hub)))
     = calls example_hub
   \<and> calls (processChainCodeOnEvents example_protos
            \<lparr>number = 5,
             data = [endorser_envelope ''tx2'' ''mycc'' ''evt'', endorser_envelope ''tx1'' ''other'' ''evt''],
             metadata = [[], [0, 0]]\<rparr>
            (snd (registerChaincodeEvent example_protos ''mycc'' ''.*'' (Some ''onAny'') None
               example_hub)))
     = calls example_hub
       @ [Chaincode_callback ''onAny''
            \<lparr>chaincode_id = ''mycc'', event_tx_id = ''tx2'', event_name = ''evt'', event_payload = []\<rparr>]"
proof -
  have r: "snd (registerChaincodeEvent example_protos ''mycc'' ''.*'' (Some ''onAny'') None
                  example_hub) =
      example_hub\<lparr>objects_allocated := 1,
        chaincodeRegistrants :=
          [(''mycc'', [\<lparr>ref = 0, ccid = ''mycc'', eventNameFilter = Parsed (Seq (Star Dot) One),
                        onEvent = ''onAny'', onError = None\<rparr>])]\<rparr>"
    by (simp add: registerChaincodeEvent_def andThen_def checkConnection_def example_hub_eq
      ht_get_def RegExp_new_def in_fragment_def metachar_def seq_with_def Let_def)
  show ?thesis
    unfolding r
    by (simp add: processChainCodeOnEvents_def ht_size_def ht_get_def header_types_example
        ccEvent_of_def endorser_envelope_def RegExp_test_Parsed)
qed

text \<open>
  Two registrations for the same chaincode id, the first with the pattern
  \<open>evtA\<close> and the second with \<open>.*\<close>, on a hub that had none for that id. At
  every envelope that the pass reaches, the dispatch of an event of that chaincode
  named \<open>evtA\<close> calls both onEvent callbacks and the dispatch of one named
  \<open>evtB\<close> calls only the second.
\<close>

lemma chaincode_filters_where_pass_arrives:
  assumes "ht_get (chaincodeRegistrants h) cc = None"
    and "registerChaincodeEvent P cc ''evtA'' (Some onA) errA h = (Inr cbeA, h1)"
    and "registerChaincodeEvent P cc ''.*'' (Some onAny) errAny h1 = (Inr cbeAny, h2)"
    and "Some (header_type (channel_header env)) = header_types P 3"
    and "ccEvent_of env = Inr ccEvent"
    and "chaincode_id ccEvent = cc"
    and "data block = before @ env # after"
    and "\<forall>e \<in> set before. \<not> stops_pass P (chaincodeRegistrants h2) e"
  shows "(event_name ccEvent = ''evtA'' \<longrightarrow>
            calls (processChainCodeOnEvents P block h2) =
              calls h2
              @ concat (map (envelope_calls P (chaincodeRegistrants h2)) before)
              @ [Chaincode_callback onA ccEvent, Chaincode_callback onAny ccEvent]
              @ concat (map (envelope_calls P (chaincodeRegistrants h2))
                  (takeWhile (\<lambda>e. \<not> stops_pass P (chaincodeRegistrants h2) e) after)))
       \<and> (event_name ccEvent = ''evtB'' \<longrightarrow>
            calls (processChainCodeOnEvents P block h2) =
              calls h2
              @ concat (map (envelope_calls P (chaincodeRegistrants h2)) before)
              @ [Chaincode_callback onAny ccEvent]
              @ concat (map (envelope_calls P (chaincodeRegistrants h2))
                  (takeWhile (\<lambda>e. \<not> stops_pass P (chaincodeRegistrants h2) e) after)))"
proof -
  note A = registerChaincodeEvent_returns [OF assms(2)]
  note B = registerChaincodeEvent_returns [OF assms(3)]
  from A have fa: "eventNameFilter cbeA = Parsed (literal ''evtA'')"
    unfolding RegExp_new_evtA by simp
  from B have fb: "eventNameFilter cbeAny = Parsed (Seq (Star Dot) One)"
    unfolding RegExp_new_any by simp
  from A assms(1) have r1: "chaincodeRegistrants h1 = ht_put cc [cbeA] (chaincodeRegistrants h)"
    by simp
  from B r1 have r2: "chaincodeRegistrants h2 = ht_put cc [cbeA, cbeAny] (chaincodeRegistrants h1)"
    by (simp add: ht_get_put_same)
  have g: "ht_get (chaincodeRegistrants h2) cc = Some [cbeA, cbeAny]"
    by (simp add: r2 ht_get_put_same)
  have ta: "search (literal ''evtA'') ''evtA''" by simp
  have tb: "\<not> search (literal ''evtA'') ''evtB''" by simp
  from A B have ev: "onEvent cbeA = onA" "onEvent cbeAny = onAny" by simp_all
  from assms(4-6) g have ns: "\<not> stops_pass P (chaincodeRegistrants h2) env"
    by (simp add: stops_pass_def)
  from assms(4-6) g fa fb ev ta have ca:
    "event_name ccEvent = ''evtA'' \<Longrightarrow> envelope_calls P (chaincodeRegistrants h2) env =
       [Chaincode_callback onA ccEvent, Chaincode_callback onAny ccEvent]"
    by (simp add: envelope_calls_def RegExp_test_Parsed search_any)
  from assms(4-6) g fa fb ev tb have cb:
    "event_name ccEvent = ''evtB'' \<Longrightarrow> envelope_calls P (chaincodeRegistrants h2) env =
       [Chaincode_callback onAny ccEvent]"
    by (simp add: envelope_calls_def RegExp_test_Parsed search_any)
  from chaincode_pass_arrives [OF assms(7,8) ns] ca cb show ?thesis
    by simp
qed

text \<open>
  C7. On the example hub with the two registrations for \<open>mycc\<close>, \<open>evtA\<close>
  then \<open>.*\<close>: an event of \<open>mycc\<close> named \<open>evtA\<close> that follows, in its
  block, an event of the chaincode \<open>other\<close>, which has no registration, calls
  neither callback. The same event behind the envelope of a configuration
  transaction, or alone in its block, calls both; an event named \<open>evtB\<close> calls
  only the second.
\<close>

theorem chaincode_filters_behind_unregistered_chaincode:
  "calls (processChainCodeOnEvents example_protos
            \<lparr>number = 5,
             data = [endorser_envelope ''tx1'' ''other'' ''evt'', endorser_envelope ''tx2'' ''mycc'' ''evtA''],
             metadata = [[], [0, 0]]\<rparr>
            (snd (registerChaincodeEvent example_protos ''mycc'' ''.*'' (Some ''onAny'') None
               (snd (registerChaincodeEvent example_protos ''mycc'' ''evtA'' (Some ''onA'') None
                  example_hub)))))
     = calls example_hub
   \<and> calls (processChainCodeOnEvents example_protos
            \<lparr>number = 5,
             data = [config_envelope, endorser_envelope ''tx2'' ''mycc'' ''evtA''],
             metadata = [[], [0, 0]]\<rparr>
            (snd (registerChaincodeEvent example_protos ''mycc'' ''.*'' (Some ''onAny'') None
               (snd (registerChaincodeEvent example_protos ''mycc'' ''evtA'' (Some ''onA'') None
                  example_hub)))))
     = calls example_hub
       @ [Chaincode_callback ''onA''
            \<lparr>chaincode_id = ''mycc'', event_tx_id = ''tx2'', event_name = ''evtA'', event_payload = []\<rparr>,
          Chaincode_callback ''onAny''
            \<lparr>chaincode_id = ''mycc'', event_tx_id = ''tx2'', event_name = ''evtA'', event_payload = []\<rparr>]
   \<and> calls (processChainCodeOnEvents example_protos
            \<lparr>number = 5, data = [endorser_envelope ''tx2'' ''mycc'' ''evtA''], metadata = [[], [0]]\<rparr>
            (snd (registerChaincodeEvent example_protos ''mycc'' ''.*'' (Some ''onAny'') None
               (snd (registerChaincodeEvent example_protos ''mycc'' ''evtA'' (Some ''onA'') None
                  example_hub)))))
     = calls example_hub
       @ [Chaincode_callback ''onA''
            \<lparr>chaincode_id = ''mycc'', event_tx_id = ''tx2'', event_name = ''evtA'', event_payload = []\<rparr>,
          Chaincode_callback ''onAny''
            \<lparr>chaincode_id = ''mycc'', event_tx_id = ''tx2'', event_name = ''evtA'', event_payload = []\<rparr>]
   \<and> calls (processChainCodeOnEvents example_protos
            \<lparr>number = 6, data = [endorser_envelope ''tx3'' ''mycc'' ''evtB''], metadata = [[], [0]]\<rparr>
            (snd (registerChaincodeEvent example_protos ''mycc'' ''.*'' (Some ''onAny'') None
               (snd (registerChaincodeEvent example_protos ''mycc'' ''evtA'' (Some ''onA'') None
                  example_hub)))))
     = calls example_hub
       @ [Chaincode_callback ''onAny''
            \<lparr>chaincode_id = ''mycc'', event_tx_id = ''tx3'', event_name = ''evtB'', event_payload = []\<rparr>]"
proof -
  let ?regs = "[(''mycc'', [\<lparr>ref = 0, ccid = ''mycc'', eventNameFilter = Parsed (literal ''evtA''),
                             onEvent = ''onA'', onError = None\<rparr>,
                           \<lparr>ref = 1, ccid = ''mycc'', eventNameFilter = Parsed (Seq (Star Dot) One),
                             onEvent = ''onAny'', onError = None\<rparr>])]"
  let ?h2 = "example_hub\<lparr>objects_allocated := 2, chaincodeRegistrants := ?regs\<rparr>"
  have none: "ht_get (chaincodeRegistrants example_hub) ''mycc'' = None"
    by (simp add: example_hub_eq ht_get_def)
  have ty: "\<And>txid name. Some (header_type (channel_header (endorser_envelope txid ''mycc'' name)))
              = header_types example_protos 3"
    by (simp add: endorser_envelope_def header_types_example)
  have c: "\<And>txid name. chaincode_id \<lparr>chaincode_id = ''mycc'', event_tx_id = txid, event_name = name,
              event_payload = []\<rparr> = ''mycc''"
    by simp
  note T = chaincode_filters_where_pass_arrives [OF none register_evtA_example register_any_example
      ty ccEvent_of_endorser_envelope c]
  have stop: "stops_pass example_protos ?regs (endorser_envelope ''tx1'' ''other'' ''evt'')"
    by (simp add: stops_pass_def header_types_example ccEvent_of_def ht_get_def
        endorser_envelope_def)
  have pass: "\<not> stops_pass example_protos ?regs config_envelope"
    by (simp add: stops_pass_def header_types_example config_envelope_def)
  have cfg: "envelope_calls example_protos ?regs config_envelope = []"
    by (simp add: envelope_calls_def header_types_example config_envelope_def)
  have 1: "calls (processChainCodeOnEvents example_protos
            \<lparr>number = 5,
             data = [endorser_envelope ''tx1'' ''other'' ''evt'', endorser_envelope ''tx2'' ''mycc'' ''evtA''],
             metadata = [[], [0, 0]]\<rparr> ?h2) = calls example_hub"
    using chaincode_pass_stopped [where P = example_protos and h = ?h2
        and before = "[endorser_envelope ''tx1'' ''other'' ''evt'']"
        and env = "endorser_envelope ''tx2'' ''mycc'' ''evtA''" and after = "[]"
        and block = "\<lparr>number = 5,
             data = [endorser_envelope ''tx1'' ''other'' ''evt'', endorser_envelope ''tx2'' ''mycc'' ''evtA''],
             metadata = [[], [0, 0]]\<rparr>"] stop
    by simp
  have 2: "calls (processChainCodeOnEvents example_protos
            \<lparr>number = 5,
             data = [config_envelope, endorser_envelope ''tx2'' ''mycc'' ''evtA''],
             metadata = [[], [0, 0]]\<rparr> ?h2)
     = calls example_hub
       @ [Chaincode_callback ''onA''
            \<lparr>chaincode_id = ''mycc'', event_tx_id = ''tx2'', event_name = ''evtA'', event_payload = []\<rparr>,
          Chaincode_callback ''onAny''
            \<lparr>chaincode_id = ''mycc'', event_tx_id = ''tx2'', event_name = ''evtA'', event_payload = []\<rparr>]"
    using T [where before = "[config_envelope]" and after = "[]" and txid1 = "''tx2''"
        and name1 = "''evtA''"
        and block = "\<lparr>number = 5,
             data = [config_envelope, endorser_envelope ''tx2'' ''mycc'' ''evtA''],
             metadata = [[], [0, 0]]\<rparr>"] pass cfg
    by simp
  have 3: "calls (processChainCodeOnEvents example_protos
            \<lparr>number = 5, data = [endorser_envelope ''tx2'' ''mycc'' ''evtA''], metadata = [[], [0]]\<rparr> ?h2)
     = calls example_hub
       @ [Chaincode_callback ''onA''
            \<lparr>chaincode_id = ''mycc'', event_tx_id = ''tx2'', event_name = ''evtA'', event_payload = []\<rparr>,
          Chaincode_callback ''onAny''
            \<lparr>chaincode_id = ''mycc'', event_tx_id = ''tx2'', event_name = ''evtA'', event_payload = []\<rparr>]"
    using T [where before = "[]" and after = "[]" and txid1 = "''tx2''" and name1 = "''evtA''"
        and block = "\<lparr>number = 5, data = [endorser_envelope ''tx2'' ''mycc'' ''evtA''],
             metadata = [[], [0]]\<rparr>"]
    by simp
  have 4: "calls (processChainCodeOnEvents example_protos
            \<lparr>number = 6, data = [endorser_envelope ''tx3'' ''mycc'' ''evtB''], metadata = [[], [0]]\<rparr> ?h2)
     = calls example_hub
       @ [Chaincode_callback ''onAny''
            \<lparr>chaincode_id = ''mycc'', event_tx_id = ''tx3'', event_name = ''evtB'', event_payload = []\<rparr>]"
    using T [where before = "[]" and after = "[]" and txid1 = "''tx3''" and name1 = "''evtB''"
        and block = "\<lparr>number = 6, data = [endorser_envelope ''tx3'' ''mycc'' ''evtB''],
             metadata = [[], [0]]\<rparr>"]
    by simp
  show ?thesis
    unfolding register_evtA_example register_any_example snd_conv
    using 1 2 3 4 by simp
qed

text \<open>
  A registration with the pattern \<open>evtA\<close>: its filter accepts exactly the names
  that contain \<open>evtA\<close> as a substring, and at every envelope that the pass
  reaches, the dispatch of an event of its chaincode with such a name calls its
  onEvent (after those of the earlier registrations for the same chaincode id that
  match, and of the envelopes before; before those of the envelopes after).
\<close>

lemma chaincode_filter_unanchored_where_pass_arrives:
  assumes "registerChaincodeEvent P cc ''evtA'' (Some on_event) on_error h = (Inr cbe, h1)"
    and "Some (header_type (channel_header env)) = header_types P 3"
    and "ccEvent_of env = Inr ccEvent"
    and "chaincode_id ccEvent = cc"
    and "data block = before @ env # after"
    and "\<forall>e \<in> set before. \<not> stops_pass P (chaincodeRegistrants h1) e"
  shows "(\<forall>name. RegExp_test P (eventNameFilter cbe) name \<longleftrightarrow> sublist ''evtA'' name)
       \<and> (sublist ''evtA'' (event_name ccEvent) \<longrightarrow>
            (\<exists>earlier later. calls (processChainCodeOnEvents P block h1) =
                          calls h1 @ earlier @ [Chaincode_callback on_event ccEvent] @ later))"
proof -
  let ?old = "case ht_get (chaincodeRegistrants h) cc of None \<Rightarrow> [] | Some t \<Rightarrow> t"
  note A = registerChaincodeEvent_returns [OF assms(1)]
  from A have fa: "eventNameFilter cbe = Parsed (literal ''evtA'')"
    unfolding RegExp_new_evtA by simp
  from A have ev: "onEvent cbe = on_event" by simp
  from A have r: "chaincodeRegistrants h1 = ht_put cc (?old @ [cbe]) (chaincodeRegistrants h)"
    by simp
  have g: "ht_get (chaincodeRegistrants h1) cc = Some (?old @ [cbe])"
    by (simp add: r ht_get_put_same)
  from assms(2-4) g have ns: "\<not> stops_pass P (chaincodeRegistrants h1) env"
    by (simp add: stops_pass_def)
  have 1: "\<forall>name. RegExp_test P (eventNameFilter cbe) name \<longleftrightarrow> sublist ''evtA'' name"
    by (simp only: fa RegExp_test_literal) simp
  have 2: "\<exists>earlier later. calls (processChainCodeOnEvents P block h1) =
                          calls h1 @ earlier @ [Chaincode_callback on_event ccEvent] @ later"
    if "sublist ''evtA'' (event_name ccEvent)"
  proof -
    from that have t: "RegExp_test P (eventNameFilter cbe) (event_name ccEvent)"
      using 1 by blast
    let ?m = "map (\<lambda>cbe. Chaincode_callback (onEvent cbe) ccEvent)
                (filter (\<lambda>cbe. RegExp_test P (eventNameFilter cbe) (event_name ccEvent)) ?old)"
    from assms(2-4) g ev t
    have c: "envelope_calls P (chaincodeRegistrants h1) env = ?m @ [Chaincode_callback on_event ccEvent]"
      by (simp add: envelope_calls_def)
    have "calls (processChainCodeOnEvents P block h1) =
            calls h1 @ (concat (map (envelope_calls P (chaincodeRegistrants h1)) before) @ ?m)
            @ [Chaincode_callback on_event ccEvent]
            @ concat (map (envelope_calls P (chaincodeRegistrants h1))
                (takeWhile (\<lambda>e. \<not> stops_pass P (chaincodeRegistrants h1) e) after))"
      using chaincode_pass_arrives [OF assms(5,6) ns] c by simp
    then show ?thesis by blast
  qed
  from 1 2 show ?thesis by blast
qed

text \<open>
  C10. The pattern \<open>evtA\<close> is compiled to a filter that accepts exactly the
  names that contain \<open>evtA\<close> as a substring. On the example hub with a
  registration for \<open>mycc\<close> with that pattern, an event of \<open>mycc\<close> named
  \<open>xevtAB\<close> calls the onEvent when it is alone in its block or behind the
  envelope of a configuration transaction; it does not when it follows, in its
  block, an event of the chaincode \<open>other\<close>, which has no registration.
\<close>

theorem unanchored_filter_behind_unregistered_chaincode:
  "RegExp_new P ''evtA'' = Inr (Parsed (literal ''evtA''))
   \<and> RegExp_test P (Parsed (literal ''evtA'')) name = sublist ''evtA'' name
   \<and> calls (processChainCodeOnEvents example_protos
            \<lparr>number = 5, data = [endorser_envelope ''tx1'' ''mycc'' ''xevtAB''], metadata = [[], [0]]\<rparr>
            (snd (registerChaincodeEvent example_protos ''mycc'' ''evtA'' (Some ''onA'') None
               example_hub)))
     = calls example_hub
       @ [Chaincode_callback ''onA''
            \<lparr>chaincode_id = ''mycc'', event_tx_id = ''tx1'', event_name = ''xevtAB'',
             event_payload = []\<rparr>]
   \<and> calls (processChainCodeOnEvents example_protos
            \<lparr>number = 5,
             data = [config_envelope, endorser_envelope ''tx1'' ''mycc'' ''xevtAB''],
             metadata = [[], [0, 0]]\<rparr>
            (snd (registerChaincodeEvent example_protos ''mycc'' ''evtA'' (Some ''onA'') None
               example_hub)))
     = calls example_hub
       @ [Chaincode_callback ''onA''
            \<lparr>chaincode_id = ''mycc'', event_tx_id = ''tx1'', event_name = ''xevtAB'',
             event_payload = []\<rparr>]
   \<and> calls (processChainCodeOnEvents example_protos
            \<lparr>number = 5,
             data = [endorser_envelope ''tx0'' ''other'' ''evt'',
                     endorser_envelope ''tx1'' ''mycc'' ''xevtAB''],
             metadata = [[], [0, 0]]\<rparr>
            (snd (registerChaincodeEvent example_protos ''mycc'' ''evtA'' (Some ''onA'') None
               example_hub)))
     = calls example_hub"
proof -
  have s: "search (literal ''evtA'') ''xevtAB''" by simp
  have 1: "RegExp_new P ''evtA'' = Inr (Parsed (literal ''evtA''))"
    by (rule RegExp_new_evtA)
  have 2: "RegExp_test P (Parsed (literal ''evtA'')) name = sublist ''evtA'' name"
    by (rule RegExp_test_literal)
  have 3: "calls (processChainCodeOnEvents example_protos
            \<lparr>number = 5, data = [endorser_envelope ''tx1'' ''mycc'' ''xevtAB''], metadata = [[], [0]]\<rparr>
            (snd (registerChaincodeEvent example_protos ''mycc'' ''evtA'' (Some ''onA'') None
               example_hub)))
     = calls example_hub
       @ [Chaincode_callback ''onA''
            \<lparr>chaincode_id = ''mycc'', event_tx_id = ''tx1'', event_name = ''xevtAB'',
             event_payload = []\<rparr>]"
    unfolding register_evtA_example snd_conv using s
    by (simp add: processChainCodeOnEvents_exact stops_pass_def envelope_calls_def ht_get_def
        header_types_example ccEvent_of_def endorser_envelope_def
        RegExp_test_Parsed del: search.simps)
  have 4: "calls (processChainCodeOnEvents example_protos
            \<lparr>number = 5,
             data = [config_envelope, endorser_envelope ''tx1'' ''mycc'' ''xevtAB''],
             metadata = [[], [0, 0]]\<rparr>
            (snd (registerChaincodeEvent example_protos ''mycc'' ''evtA'' (Some ''onA'') None
               example_hub)))
     = calls example_hub
       @ [Chaincode_callback ''onA''
            \<lparr>chaincode_id = ''mycc'', event_tx_id = ''tx1'', event_name = ''xevtAB'',
             event_payload = []\<rparr>]"
    unfolding register_evtA_example snd_conv using s
    by (simp add: processChainCodeOnEvents_exact stops_pass_def envelope_calls_def ht_get_def
        header_types_example ccEvent_of_def endorser_envelope_def
        config_envelope_def RegExp_test_Parsed del: search.simps)
  have 5: "calls (processChainCodeOnEvents example_protos
            \<lparr>number = 5,
             data = [endorser_envelope ''tx0'' ''other'' ''evt'',
                     endorser_envelope ''tx1'' ''mycc'' ''xevtAB''],
             metadata = [[], [0, 0]]\<rparr>
            (snd (registerChaincodeEvent example_protos ''mycc'' ''evtA'' (Some ''onA'') None
               example_hub)))
     = calls example_hub"
    unfolding register_evtA_example snd_conv
    by (simp add: processChainCodeOnEvents_exact stops_pass_def envelope_calls_def ht_get_def
        header_types_example ccEvent_of_def endorser_envelope_def)
  from 1 2 3 4 5 show ?thesis by blast
qed

section \<open>Registering on a disconnected hub\<close>

lemma ht_put_mem: "(k, v) \<in> set (ht_put k v t)"
  by (induction t) auto

lemma Error_callback_ht_put:
  "Error_callback v err \<in> (\<lambda>e. Error_callback (snd e) err) ` set (ht_put k v t)"
  using ht_put_mem [of k v t] by force

lemma checkConnection_not_connected:
  "\<not> connected h \<Longrightarrow> \<exists>e. checkConnection True f h = (Inl e, h)"
  by (simp add: checkConnection_def split: option.splits)

lemma checkConnection_reconnect:
  assumes "\<not> connected h" "ep h = Some remote"
  shows "checkConnection False True h =
     (case stream h of
        None \<Rightarrow> (Inl Event_hub_is_not_connected, disconnect h)
      | Some s \<Rightarrow>
          (Inr (),
           if connectivity_state s = 2
           then (if isPaused s
                 then h\<lparr>stream := Some (s\<lparr>isPaused := False\<rparr>), calls := calls h @ [Stream_resume (sid s)]\<rparr>
                 else h)
           else h\<lparr>send_timeouts := send_timeouts h @ [streams_opened h],
                  stream := Some \<lparr>sid = streams_opened h, isPaused = False, connectivity_state = 0\<rparr>,
                  connected := True, streams_opened := Suc (streams_opened h),
                  calls := calls h @ (if isPaused s then [Stream_resume (sid s)] else [])
                     @ [Stream_write (streams_opened h)
                          (SignedEvent (Event True (identity (userContext h))) (identity (userContext h)))]\<rparr>))"
  using assms
  by (simp add: checkConnection_def connect_internal_def sendRegistration_def do_call_def Let_def
      split: option.splits)

lemma checkConnection_pass:
  assumes "ep h = Some remote"
  shows "checkConnection False False h = (Inr (), h)"
  using assms by (simp add: checkConnection_def)

lemma registerBlockEvent_reconnect:
  assumes "\<not> connected h" "ep h = Some remote" "force_reconnect h"
  shows "registerBlockEvent (Some ev) (Some er) h =
     andThen (checkConnection False True
                (h\<lparr>block_registrant_count := block_registrant_count h + 1,
                   blockOnEvents := ht_put (block_registrant_count h) ev (blockOnEvents h),
                   blockOnErrors := ht_put (block_registrant_count h) er (blockOnErrors h)\<rparr>))
       (\<lambda>u h3. (Inr (block_registrant_count h), h3))"
  using assms
  by (simp add: registerBlockEvent_def checkConnection_pass [of h remote] andThen_def Let_def)

lemma registerTxEvent_reconnect:
  assumes "\<not> connected h" "ep h = Some remote" "force_reconnect h" "txid \<noteq> []"
  shows "registerTxEvent txid (Some ev) (Some er) h =
     checkConnection False True
       (h\<lparr>transactionOnEvents := ht_put txid ev (transactionOnEvents h),
          transactionOnErrors := ht_put txid er (transactionOnErrors h)\<rparr>)"
  using assms
  by (simp add: registerTxEvent_def checkConnection_pass [of h remote] andThen_def Let_def)

lemma registerChaincodeEvent_reconnect:
  assumes "\<not> connected h" "ep h = Some remote" "force_reconnect h" "cc \<noteq> []" "eventname \<noteq> []"
    "RegExp_new P eventname = Inr re"
  shows "registerChaincodeEvent P cc eventname (Some ev) (Some er) h =
     andThen (checkConnection False True
                (h\<lparr>objects_allocated := Suc (objects_allocated h),
                   chaincodeRegistrants :=
                     ht_put cc ((case ht_get (chaincodeRegistrants h) cc of None \<Rightarrow> [] | Some t \<Rightarrow> t)
                                @ [\<lparr>ref = objects_allocated h, ccid = cc, eventNameFilter = re,
                                    onEvent = ev, onError = Some er\<rparr>])
                       (chaincodeRegistrants h)\<rparr>))
       (\<lambda>u h3. (Inr \<lparr>ref = objects_allocated h, ccid = cc, eventNameFilter = re,
                      onEvent = ev, onError = Some er\<rparr>, h3))"
  using assms
  by (simp add: registerChaincodeEvent_def checkConnection_pass [of h remote] andThen_def Let_def)

lemma Error_callback_chaincode:
  "Error_callback er err \<in> set (concat (map (\<lambda>e. List.map_filter
       (\<lambda>cbe. map_option (\<lambda>cb. Error_callback cb err) (onError cbe)) (snd e))
     (ht_put cc (old @ [\<lparr>ref = k, ccid = cc, eventNameFilter = re, onEvent = ev, onError = Some er\<rparr>]) t)))"
proof -
  let ?cbe = "\<lparr>ref = k, ccid = cc, eventNameFilter = re, onEvent = ev, onError = Some er\<rparr>"
  have "Error_callback er err \<in> set (List.map_filter
       (\<lambda>cbe. map_option (\<lambda>cb. Error_callback cb err) (onError cbe)) (old @ [?cbe]))"
    by (simp add: List.map_filter_def)
  with ht_put_mem [of cc "old @ [?cbe]" t] show ?thesis
    by (simp only: set_concat set_map) force
qed

lemma disconnect_fields:
  "connected (disconnect h) = False"
  "ep (disconnect h) = ep h"
  "stream (disconnect h) = stream h"
  "force_reconnect (disconnect h) = force_reconnect h"
  "block_registrant_count (disconnect h) = block_registrant_count h"
  "streams_opened (disconnect h) = streams_opened h"
  "send_timeouts (disconnect h) = send_timeouts h"
  "blockOnEvents (disconnect h) = []"
  "blockOnErrors (disconnect h) = []"
  by (simp_all add: disconnect_def closeAllCallbacks_def sendRegistration_def do_call_def Let_def
      split: option.splits)

text \<open>
  C3, as the code has it. On a hub that is not connected, a registration without
  an onError callback fails with an error and leaves the hub as it was. With an
  onError callback, valid arguments, a peer address and \<open>force_reconnect\<close> set (as
  the constructor sets it), what happens depends on the stream. If the hub has a stream
  from an earlier connection, the listener is stored, the call returns normally, and
  the hub reconnects unless the channel of that stream reports ready
  (\<open>reconnect_attempted\<close>). If the hub has no stream, as before its first
  \<open>connect()\<close>, the call runs \<open>disconnect()\<close>, which calls the new onError
  with the shutdown error and empties the registries, and fails with
  \<open>Event_hub_is_not_connected\<close>.
\<close>

theorem register_while_disconnected:
  assumes "\<not> connected h"
  shows "(\<exists>e. registerBlockEvent on_event None h = (Inl e, h))
     \<and> (\<exists>e. registerTxEvent txid on_event None h = (Inl e, h))
     \<and> (\<exists>e. registerChaincodeEvent P cc eventname on_event None h = (Inl e, h))
     \<and> (ep h \<noteq> None \<and> force_reconnect h \<and> txid \<noteq> [] \<and> cc \<noteq> [] \<and> eventname \<noteq> []
          \<and> RegExp_new P eventname = Inr re \<longrightarrow>
         (case stream h of
            None \<Rightarrow>
              (\<exists>h'. registerBlockEvent (Some ev) (Some er) h = (Inl Event_hub_is_not_connected, h')
                    \<and> shut_down_with er h')
              \<and> (\<exists>h'. registerTxEvent txid (Some ev) (Some er) h = (Inl Event_hub_is_not_connected, h')
                    \<and> shut_down_with er h')
              \<and> (\<exists>h'. registerChaincodeEvent P cc eventname (Some ev) (Some er) h
                          = (Inl Event_hub_is_not_connected, h')
                    \<and> shut_down_with er h')
          | Some s \<Rightarrow>
              (\<exists>h'. registerBlockEvent (Some ev) (Some er) h = (Inr (block_registrant_count h), h')
                    \<and> blockOnEvents h' = ht_put (block_registrant_count h) ev (blockOnEvents h)
                    \<and> blockOnErrors h' = ht_put (block_registrant_count h) er (blockOnErrors h)
                    \<and> reconnect_attempted s h h')
              \<and> (\<exists>h'. registerTxEvent txid (Some ev) (Some er) h = (Inr (), h')
                    \<and> transactionOnEvents h' = ht_put txid ev (transactionOnEvents h)
                    \<and> transactionOnErrors h' = ht_put txid er (transactionOnErrors h)
                    \<and> reconnect_attempted s h h')
              \<and> (\<exists>h' cbe. registerChaincodeEvent P cc eventname (Some ev) (Some er) h = (Inr cbe, h')
                    \<and> cbe = \<lparr>ref = objects_allocated h, ccid = cc, eventNameFilter = re,
                              onEvent = ev, onError = Some er\<rparr>
                    \<and> chaincodeRegistrants h' =
                        ht_put cc ((case ht_get (chaincodeRegistrants h) cc of
                                      None \<Rightarrow> [] | Some t \<Rightarrow> t) @ [cbe])
                          (chaincodeRegistrants h)
                    \<and> reconnect_attempted s h h')))"
proof -
  note nc = checkConnection_not_connected [OF assms, of False]
  have A1: "\<exists>e. registerBlockEvent on_event None h = (Inl e, h)"
    using nc by (cases on_event) (auto simp: registerBlockEvent_def andThen_def)
  have A2: "\<exists>e. registerTxEvent txid on_event None h = (Inl e, h)"
    using nc by (cases on_event) (auto simp: registerTxEvent_def andThen_def)
  have A3: "\<exists>e. registerChaincodeEvent P cc eventname on_event None h = (Inl e, h)"
    using nc by (cases on_event) (auto simp: registerChaincodeEvent_def andThen_def)
  have B: "case stream h of
            None \<Rightarrow>
              (\<exists>h'. registerBlockEvent (Some ev) (Some er) h = (Inl Event_hub_is_not_connected, h')
                    \<and> shut_down_with er h')
              \<and> (\<exists>h'. registerTxEvent txid (Some ev) (Some er) h = (Inl Event_hub_is_not_connected, h')
                    \<and> shut_down_with er h')
              \<and> (\<exists>h'. registerChaincodeEvent P cc eventname (Some ev) (Some er) h
                          = (Inl Event_hub_is_not_connected, h')
                    \<and> shut_down_with er h')
          | Some s \<Rightarrow>
              (\<exists>h'. registerBlockEvent (Some ev) (Some er) h = (Inr (block_registrant_count h), h')
                    \<and> blockOnEvents h' = ht_put (block_registrant_count h) ev (blockOnEvents h)
                    \<and> blockOnErrors h' = ht_put (block_registrant_count h) er (blockOnErrors h)
                    \<and> reconnect_attempted s h h')
              \<and> (\<exists>h'. registerTxEvent txid (Some ev) (Some er) h = (Inr (), h')
                    \<and> transactionOnEvents h' = ht_put txid ev (transactionOnEvents h)
                    \<and> transactionOnErrors h' = ht_put txid er (transactionOnErrors h)
                    \<and> reconnect_attempted s h h')
              \<and> (\<exists>h' cbe. registerChaincodeEvent P cc eventname (Some ev) (Some er) h = (Inr cbe, h')
                    \<and> cbe = \<lparr>ref = objects_allocated h, ccid = cc, eventNameFilter = re,
                              onEvent = ev, onError = Some er\<rparr>
                    \<and> chaincodeRegistrants h' =
                        ht_put cc ((case ht_get (chaincodeRegistrants h) cc of
                                      None \<Rightarrow> [] | Some t \<Rightarrow> t) @ [cbe])
                          (chaincodeRegistrants h)
                    \<and> reconnect_attempted s h h')"
    if pre: "ep h \<noteq> None" "force_reconnect h" "txid \<noteq> []" "cc \<noteq> []" "eventname \<noteq> []"
      "RegExp_new P eventname = Inr re"
  proof -
    from pre obtain remote where ep: "ep h = Some remote" by auto
    note rb = registerBlockEvent_reconnect [OF assms ep pre(2), of ev er]
    note rt = registerTxEvent_reconnect [OF assms ep pre(2,3), of ev er]
    note rc = registerChaincodeEvent_reconnect [OF assms ep pre(2,4,5,6), of ev er]
    show ?thesis
    proof (cases "stream h")
      case None
      have b: "\<exists>h'. registerBlockEvent (Some ev) (Some er) h = (Inl Event_hub_is_not_connected, h')
                    \<and> shut_down_with er h'"
        unfolding rb using assms ep None
        by (subst checkConnection_reconnect [of _ remote])
           (simp_all add: andThen_def shut_down_with_def disconnect_def closeAllCallbacks_def
              Error_callback_ht_put)
      have t: "\<exists>h'. registerTxEvent txid (Some ev) (Some er) h = (Inl Event_hub_is_not_connected, h')
                    \<and> shut_down_with er h'"
        unfolding rt using assms ep None
        by (subst checkConnection_reconnect [of _ remote])
           (simp_all add: andThen_def shut_down_with_def disconnect_def closeAllCallbacks_def
              Error_callback_ht_put)
      have c: "\<exists>h'. registerChaincodeEvent P cc eventname (Some ev) (Some er) h
                          = (Inl Event_hub_is_not_connected, h')
                    \<and> shut_down_with er h'"
        unfolding rc using assms ep None Error_callback_chaincode
        by (subst checkConnection_reconnect [of _ remote])
           (simp_all add: andThen_def shut_down_with_def disconnect_def closeAllCallbacks_def)
      from b t c None show ?thesis by simp
    next
      case (Some s)
      have b: "\<exists>h'. registerBlockEvent (Some ev) (Some er) h = (Inr (block_registrant_count h), h')
                    \<and> blockOnEvents h' = ht_put (block_registrant_count h) ev (blockOnEvents h)
                    \<and> blockOnErrors h' = ht_put (block_registrant_count h) er (blockOnErrors h)
                    \<and> reconnect_attempted s h h'"
        unfolding rb using assms ep Some
        by (subst checkConnection_reconnect [of _ remote])
           (simp_all add: andThen_def reconnect_attempted_def)
      have t: "\<exists>h'. registerTxEvent txid (Some ev) (Some er) h = (Inr (), h')
                    \<and> transactionOnEvents h' = ht_put txid ev (transactionOnEvents h)
                    \<and> transactionOnErrors h' = ht_put txid er (transactionOnErrors h)
                    \<and> reconnect_attempted s h h'"
        unfolding rt using assms ep Some
        by (subst checkConnection_reconnect [of _ remote])
           (simp_all add: andThen_def reconnect_attempted_def)
      have c: "\<exists>h' cbe. registerChaincodeEvent P cc eventname (Some ev) (Some er) h = (Inr cbe, h')
                    \<and> cbe = \<lparr>ref = objects_allocated h, ccid = cc, eventNameFilter = re,
                              onEvent = ev, onError = Some er\<rparr>
                    \<and> chaincodeRegistrants h' =
                        ht_put cc ((case ht_get (chaincodeRegistrants h) cc of
                                      None \<Rightarrow> [] | Some t \<Rightarrow> t) @ [cbe])
                          (chaincodeRegistrants h)
                    \<and> reconnect_attempted s h h'"
        unfolding rc using assms ep Some
        by (subst checkConnection_reconnect [of _ remote])
           (simp_all add: andThen_def reconnect_attempted_def)
      from b t c Some show ?thesis by simp
    qed
  qed
  from A1 A2 A3 B show ?thesis by blast
qed

text \<open>
  On the example hub after \<open>disconnect()\<close>: without onError the registration
  fails; with one it returns the number 1 and the hub reconnects on a second stream.
\<close>

theorem register_while_disconnected_witness:
  "\<not> connected (disconnect example_hub)
   \<and> (\<exists>e. registerBlockEvent (Some ''onBlock'') None (disconnect example_hub)
             = (Inl e, disconnect example_hub))
   \<and> fst (registerBlockEvent (Some ''onBlock'') (Some ''onErr'') (disconnect example_hub)) = Inr 1
   \<and> connected (snd (registerBlockEvent (Some ''onBlock'') (Some ''onErr'') (disconnect example_hub)))
   \<and> streams_opened (snd (registerBlockEvent (Some ''onBlock'') (Some ''onErr'') (disconnect example_hub))) = 2"
proof -
  have nc: "\<not> connected (disconnect example_hub)"
    by (simp add: disconnect_fields)
  have pre: "ep (disconnect example_hub) \<noteq> None \<and> force_reconnect (disconnect example_hub)
             \<and> ''tx1'' \<noteq> [] \<and> ''mycc'' \<noteq> [] \<and> ''evtA'' \<noteq> []
             \<and> RegExp_new example_protos ''evtA'' = Inr (Parsed (literal ''evtA''))"
    by (simp add: disconnect_fields example_hub_eq RegExp_new_evtA)
  have st: "stream (disconnect example_hub) = Some \<lparr>sid = 0, isPaused = False, connectivity_state = 0\<rparr>"
    by (simp add: disconnect_fields example_hub_eq)
  have cnt: "block_registrant_count (disconnect example_hub) = 1"
    "streams_opened (disconnect example_hub) = 1"
    by (simp_all add: disconnect_fields example_hub_eq)
  note T = register_while_disconnected [OF nc, where on_event = "Some ''onBlock''" and txid = "''tx1''"
      and cc = "''mycc''" and eventname = "''evtA''" and re = "Parsed (literal ''evtA'')"
      and P = example_protos
      and ev = "''onBlock''" and er = "''onErr''"]
  from T pre have A: "\<exists>e. registerBlockEvent (Some ''onBlock'') None (disconnect example_hub)
             = (Inl e, disconnect example_hub)"
    by blast
  from T pre st obtain h' where
    "registerBlockEvent (Some ''onBlock'') (Some ''onErr'') (disconnect example_hub)
       = (Inr (block_registrant_count (disconnect example_hub)), h')"
    "reconnect_attempted \<lparr>sid = 0, isPaused = False, connectivity_state = 0\<rparr> (disconnect example_hub) h'"
    by auto
  with nc A cnt show ?thesis
    by (simp add: reconnect_attempted_def)
qed

text \<open>
  C3 as stated fails at two inputs. On a hub that has a peer address and has never
  connected, a block registration with an onError callback fails synchronously; the
  listener is not kept. On a hub that was disconnected while the channel of its stream
  is ready, the registration is accepted and no reconnect is attempted: the hub stays
  disconnected, no stream is opened and nothing is written.
\<close>

theorem register_while_disconnected_counterexample:
  "\<not> connected (setPeerAddr example_remote (new_hub \<lparr>identity = ''admin''\<rparr>))
   \<and> registerBlockEvent (Some ''onBlock'') (Some ''onErr'')
       (setPeerAddr example_remote (new_hub \<lparr>identity = ''admin''\<rparr>))
     = (Inl Event_hub_is_not_connected,
        (setPeerAddr example_remote (new_hub \<lparr>identity = ''admin''\<rparr>))
          \<lparr>block_registrant_count := 2,
           calls := [Error_callback ''onErr'' EventHub_has_been_shutdown]\<rparr>)
   \<and> \<not> connected (snd (run example_protos [Stream_status False 2, Disconnect] example_hub))
   \<and> registerBlockEvent (Some ''onBlock'') (Some ''onErr'')
       (snd (run example_protos [Stream_status False 2, Disconnect] example_hub))
     = (Inr 1,
        (snd (run example_protos [Stream_status False 2, Disconnect] example_hub))
          \<lparr>block_registrant_count := 2,
           blockOnEvents := [(1, ''onBlock'')], blockOnErrors := [(1, ''onErr'')]\<rparr>)"
  by (simp add: setPeerAddr_def new_hub_def registerBlockEvent_def andThen_def checkConnection_def
      disconnect_def closeAllCallbacks_def step_def example_hub_eq sendRegistration_def do_call_def
      Let_def)

section \<open>The registration-send timeout\<close>

text \<open>
  C8. The handlers of the stream's end and error signals call \<open>disconnect()\<close> only
  on a hub that is marked connected; the function given to \<open>setTimeout\<close> calls it
  without that test. On the example hub after \<open>disconnect()\<close>, an end or an error
  signal makes no call, while the expiry of the timer writes a second unregister
  message and ends the stream again. In a run where a listener is registered between
  the \<open>disconnect()\<close> and the expiry (the channel being ready, no reconnect is
  made), the expiry shuts that listener down.
\<close>

theorem send_timeout_disconnects_again:
  "\<not> connected (disconnect example_hub)
   \<and> calls (stream_on_end 0 (disconnect example_hub)) = calls (disconnect example_hub)
   \<and> calls (stream_on_error 0 (disconnect example_hub)) = calls (disconnect example_hub)
   \<and> calls (send_timeout_expired 0 (disconnect example_hub))
       = calls (disconnect example_hub)
         @ [Stream_write 0 (SignedEvent (Event False ''admin'') ''admin''), Stream_end 0]
   \<and> calls (snd (run example_protos
         [Stream_status False 2, Disconnect,
          RegisterBlockEvent (Some ''onBlock'') (Some ''onError''), End 0]
         example_hub))
       = [Stream_write 0 (SignedEvent (Event True ''admin'') ''admin''),
          Stream_write 0 (SignedEvent (Event False ''admin'') ''admin''), Stream_end 0]
   \<and> calls (snd (run example_protos
         [Stream_status False 2, Disconnect,
          RegisterBlockEvent (Some ''onBlock'') (Some ''onError''), Timeout 0]
         example_hub))
       = [Stream_write 0 (SignedEvent (Event True ''admin'') ''admin''),
          Stream_write 0 (SignedEvent (Event False ''admin'') ''admin''), Stream_end 0,
          Error_callback ''onError'' EventHub_has_been_shutdown,
          Stream_write 0 (SignedEvent (Event False ''admin'') ''admin''), Stream_end 0]"
  by (simp add: eval_defs example_hub_eq)

section \<open>Block registration numbers\<close>

lemma block_frame_refl: "block_frame h h"
  by (simp add: block_frame_def)

lemma block_frame_trans: "block_frame h h1 \<Longrightarrow> block_frame h1 h2 \<Longrightarrow> block_frame h h2"
  by (auto simp: block_frame_def)

lemma block_frame_calls: "block_frame h (h\<lparr>calls := cs\<rparr>)"
  by (simp add: block_frame_def)

lemma block_frame_disconnect: "block_frame h (disconnect h)"
  by (simp add: block_frame_def disconnect_def closeAllCallbacks_def sendRegistration_def
      do_call_def Let_def split: option.splits)

lemma block_frame_connect_internal: "block_frame h (snd (connect_internal force h))"
  by (simp add: block_frame_def connect_internal_def sendRegistration_def do_call_def Let_def
      split: option.splits)

lemma block_frame_checkConnection: "block_frame h (snd (checkConnection t f h))"
  by (simp add: block_frame_def checkConnection_def connect_internal_def disconnect_def
      closeAllCallbacks_def sendRegistration_def do_call_def Let_def split: option.splits)

lemma block_frame_andThen:
  assumes "block_frame h (snd m)" "\<And>a h1. block_frame h1 (snd (f a h1))"
  shows "block_frame h (snd (andThen m f))"
proof (cases m)
  case (Pair r h1)
  with assms show ?thesis
    by (cases r) (auto simp: andThen_def intro: block_frame_trans)
qed

lemma block_frame_registerTxEvent: "block_frame h (snd (registerTxEvent txid oe er h))"
proof -
  have 1: "\<And>h1 ev e. block_frame h1
      (snd (checkConnection False (force_reconnect h1)
         (h1\<lparr>transactionOnEvents := ht_put txid ev (transactionOnEvents h1),
             transactionOnErrors := ht_put txid e (transactionOnErrors h1)\<rparr>)))"
    using block_frame_checkConnection [of "_\<lparr>transactionOnEvents := _, transactionOnErrors := _\<rparr>"]
    by (simp add: block_frame_def)
  show ?thesis
    unfolding registerTxEvent_def
    by (auto simp: block_frame_refl Let_def block_frame_def [of _ "_\<lparr>transactionOnEvents := _\<rparr>"]
        intro!: block_frame_andThen block_frame_checkConnection 1 split: option.splits)
qed

lemma block_frame_registerChaincodeEvent:
  "block_frame h (snd (registerChaincodeEvent P cc name oe er h))"
proof -
  have 1: "\<And>h1 v. block_frame h1
      (snd (checkConnection False (force_reconnect h1)
         (h1\<lparr>objects_allocated := Suc (objects_allocated h1), chaincodeRegistrants := v\<rparr>)))"
    using block_frame_checkConnection [of "_\<lparr>objects_allocated := _, chaincodeRegistrants := _\<rparr>"]
    by (simp add: block_frame_def)
  have 2: "\<And>h1 v. block_frame h1
      (h1\<lparr>objects_allocated := Suc (objects_allocated h1), chaincodeRegistrants := v\<rparr>)"
    by (simp add: block_frame_def)
  show ?thesis
    unfolding registerChaincodeEvent_def
    by (auto simp: block_frame_refl Let_def 2
        intro!: block_frame_andThen block_frame_checkConnection 1 split: option.splits sum.splits)
qed

lemma block_frame_unregister:
  "block_frame h (snd (unregisterChaincodeEvent cbe h))"
  "block_frame h (snd (unregisterTxEvent txid h))"
  by (simp_all add: block_frame_def unregisterChaincodeEvent_def unregisterTxEvent_def Let_def
      split: option.splits)

lemma block_frame_do_call: "block_frame h (do_call c h)"
  by (simp add: block_frame_def do_call_def)

lemma block_frame_tx_loop: "block_frame h (snd (tx_loop P codes envs i h))"
proof (induction envs arbitrary: i h codes)
  case Nil
  show ?case by (simp add: block_frame_refl)
next
  case (Cons env rest)
  show ?case
    by (auto simp: Let_def block_frame_refl split: option.splits
        intro: Cons.IH block_frame_trans [OF block_frame_do_call Cons.IH])
qed

lemma block_frame_cc_loop: "block_frame h (cc_loop P envs h)"
proof (induction envs arbitrary: h)
  case Nil
  show ?case by (simp add: block_frame_refl)
next
  case (Cons env rest)
  have upd: "block_frame h (cc_loop P rest (h\<lparr>calls := c\<rparr>))" for c
    by (rule block_frame_trans [OF block_frame_calls Cons.IH])
  show ?case
    by (simp add: block_frame_refl Cons.IH upd split: sum.splits option.splits)
qed

lemma block_frame_dispatch:
  "block_frame h (processBlockOnEvents block h)"
  "block_frame h (snd (processTxOnEvents P block h))"
  "block_frame h (processChainCodeOnEvents P block h)"
  by (simp_all add: processBlockOnEvents_def processTxOnEvents_def processChainCodeOnEvents_def
      block_frame_refl block_frame_calls block_frame_tx_loop block_frame_cc_loop)

lemma block_frame_clearTimeout: "block_frame h (clearTimeout k h)"
  by (simp add: clearTimeout_def block_frame_def)

lemma block_frame_handlers:
  "block_frame h (snd (stream_on_data P k event h))"
  "block_frame h (stream_on_end k h)"
  "block_frame h (stream_on_error k h)"
  "block_frame h (send_timeout_expired k h)"
proof -
  note tr = block_frame_trans [OF block_frame_clearTimeout]
  show "block_frame h (stream_on_end k h)" "block_frame h (stream_on_error k h)"
    "block_frame h (send_timeout_expired k h)"
    by (auto simp: stream_on_end_def stream_on_error_def send_timeout_expired_def
        block_frame_clearTimeout block_frame_refl intro: tr block_frame_disconnect)
  show "block_frame h (snd (stream_on_data P k event h))"
  proof (cases event)
    case (Block_message block)
    have "block_frame h (snd (processTxOnEvents P block (processBlockOnEvents block (clearTimeout k h))))"
      by (blast intro: tr block_frame_trans block_frame_dispatch)
    then show ?thesis
      unfolding stream_on_data_def Block_message
      by (auto intro!: block_frame_andThen block_frame_dispatch)
  qed (auto simp: stream_on_data_def block_frame_clearTimeout intro: tr block_frame_disconnect)
qed

lemma checkConnection_no_force: "snd (checkConnection t False h) = h"
  by (simp add: checkConnection_def split: option.splits)

lemma registerBlockEvent_cases:
  assumes "registerBlockEvent oe er h = (r, h')"
  shows "(h' = h \<and> (\<exists>e. r = Inl e))
       \<or> (block_registrant_count h' = Suc (block_registrant_count h)
          \<and> (\<exists>ev. blockOnEvents h' = ht_put (block_registrant_count h) ev (blockOnEvents h)
                   \<or> blockOnEvents h' = [])
          \<and> (\<forall>a. r = Inr a \<longrightarrow> a = block_registrant_count h))"
proof (cases oe)
  case None
  with assms show ?thesis by (auto simp: registerBlockEvent_def)
next
  case (Some ev)
  obtain r1 h1 where c1: "checkConnection (er = None) False h = (r1, h1)"
    by (cases "checkConnection (er = None) False h")
  with checkConnection_no_force [of "er = None" h] have h1: "h1 = h" by simp
  show ?thesis
  proof (cases r1)
    case (Inl e)
    with assms Some c1 h1 show ?thesis by (auto simp: registerBlockEvent_def andThen_def)
  next
    case (Inr u)
    let ?n = "block_registrant_count h"
    let ?h2 = "h\<lparr>block_registrant_count := ?n + 1, blockOnEvents := ht_put ?n ev (blockOnEvents h)\<rparr>"
    show ?thesis
    proof (cases er)
      case None
      with assms Some c1 h1 Inr have "r = Inr ?n" "h' = ?h2"
        by (simp_all add: registerBlockEvent_def andThen_def Let_def)
      then show ?thesis by auto
    next
      case (Some e)
      let ?h2e = "?h2\<lparr>blockOnErrors := ht_put ?n e (blockOnErrors ?h2)\<rparr>"
      obtain r3 h3 where c3: "checkConnection False (force_reconnect ?h2) ?h2e = (r3, h3)"
        by (cases "checkConnection False (force_reconnect ?h2) ?h2e")
      from block_frame_checkConnection [of ?h2e False "force_reconnect ?h2"] c3
      have f: "block_frame ?h2e h3" by simp
      from assms \<open>oe = Some ev\<close> c1 h1 Inr Some c3
      have "h' = h3" "\<forall>a. r = Inr a \<longrightarrow> a = ?n"
        by (auto simp: registerBlockEvent_def andThen_def Let_def split: sum.splits)
      with f show ?thesis by (auto simp: block_frame_def)
    qed
  qed
qed

lemma keys_ht_put: "set (map fst (ht_put k v t)) = insert k (set (map fst t))"
  by (induction t) auto

lemma distinct_ht_put: "distinct (map fst t) \<Longrightarrow> distinct (map fst (ht_put k v t))"
proof (induction t)
  case Nil
  show ?case by simp
next
  case (Cons e t)
  then show ?case
    using keys_ht_put [of k v t] by (cases e) (auto simp del: set_map)
qed

lemma block_handles_ok_frame: "block_handles_ok h \<Longrightarrow> block_frame h h' \<Longrightarrow> block_handles_ok h'"
  by (auto simp: block_handles_ok_def block_frame_def)

lemma block_handles_ok_registerBlockEvent:
  assumes "block_handles_ok h" "registerBlockEvent oe er h = (r, h')"
  shows "block_handles_ok h'"
proof -
  have put: "distinct (map fst (ht_put (block_registrant_count h) ev (blockOnEvents h)))
     \<and> list_all (\<lambda>k. 1 \<le> k \<and> k < Suc (block_registrant_count h))
         (map fst (ht_put (block_registrant_count h) ev (blockOnEvents h)))" for ev
    using assms(1) keys_ht_put [of "block_registrant_count h" ev "blockOnEvents h"]
    by (auto simp: block_handles_ok_def list_all_iff distinct_ht_put simp del: set_map)
  from registerBlockEvent_cases [OF assms(2)] assms(1) put show ?thesis
    by (auto simp: block_handles_ok_def)
qed

lemma block_handles_ok_unregisterBlockEvent:
  assumes "block_handles_ok h" "unregisterBlockEvent n h = (r, h')"
  shows "block_handles_ok h' \<and> block_registrant_count h' = block_registrant_count h"
  using assms
  by (fastforce simp: block_handles_ok_def unregisterBlockEvent_def ht_remove_def list_all_iff
      distinct_map_filter split: if_splits)

lemma snd_returning: "snd (returning f m) = snd m"
  by (cases m; cases "fst m") (auto simp: returning_def)

lemma returning_Number:
  "returning f m = (Inr (Number a), h') \<Longrightarrow> (\<And>x. f x \<noteq> Number a) \<Longrightarrow> False"
  by (cases m; cases "fst m") (auto simp: returning_def)

lemma step_frame:
  assumes "step P oper h = (r, h')"
    and "\<And>oe er. oper \<noteq> RegisterBlockEvent oe er"
    and "\<And>n. oper \<noteq> UnregisterBlockEvent n"
  shows "block_frame h h' \<and> (\<forall>a. r \<noteq> Inr (Number a))"
proof (cases oper)
  case (SetPeerAddr remote)
  with assms(1) show ?thesis by (auto simp: step_def setPeerAddr_def block_frame_def)
next
  case Connect
  with assms(1) block_frame_connect_internal [of h False] show ?thesis
    by (cases "connect_internal False h"; cases "fst (connect_internal False h)")
       (auto simp: step_def connect_def returning_def)
next
  case Disconnect
  with assms(1) show ?thesis by (auto simp: step_def block_frame_disconnect)
next
  case (RegisterChaincodeEvent cc name oe er)
  with assms(1) block_frame_registerChaincodeEvent [of h P cc name oe er] show ?thesis
    by (cases "registerChaincodeEvent P cc name oe er h";
        cases "fst (registerChaincodeEvent P cc name oe er h)")
       (auto simp: step_def returning_def)
next
  case (UnregisterChaincodeEvent cbe)
  with assms(1) block_frame_unregister(1) [of h cbe] show ?thesis
    by (cases "unregisterChaincodeEvent cbe h"; cases "fst (unregisterChaincodeEvent cbe h)")
       (auto simp: step_def returning_def)
next
  case (RegisterBlockEvent oe er)
  with assms(2) show ?thesis by blast
next
  case (UnregisterBlockEvent n)
  with assms(3) show ?thesis by blast
next
  case (RegisterTxEvent txid oe er)
  with assms(1) block_frame_registerTxEvent [of h txid oe er] show ?thesis
    by (cases "registerTxEvent txid oe er h"; cases "fst (registerTxEvent txid oe er h)")
       (auto simp: step_def returning_def)
next
  case (UnregisterTxEvent txid)
  with assms(1) block_frame_unregister(2) [of h txid] show ?thesis
    by (cases "unregisterTxEvent txid h"; cases "fst (unregisterTxEvent txid h)")
       (auto simp: step_def returning_def)
next
  case (Set_force_reconnect b)
  with assms(1) show ?thesis by (auto simp: step_def block_frame_def)
next
  case (Data k event)
  with assms(1) block_frame_handlers(1) [of h P k event] show ?thesis
    by (cases "stream_on_data P k event h"; cases "fst (stream_on_data P k event h)")
       (auto simp: step_def returning_def block_frame_refl split: if_splits)
next
  case (End k)
  with assms(1) show ?thesis
    by (auto simp: step_def block_frame_handlers block_frame_refl split: if_splits)
next
  case (Stream_error k)
  with assms(1) show ?thesis
    by (auto simp: step_def block_frame_handlers block_frame_refl split: if_splits)
next
  case (Timeout k)
  with assms(1) show ?thesis by (auto simp: step_def block_frame_handlers)
next
  case (Stream_status paused state)
  with assms(1) show ?thesis by (auto simp: step_def block_frame_def)
qed

lemma Number_is_block_registration:
  assumes "step P oper h = (Inr (Number a), h')"
  shows "\<exists>on_event on_error. oper = RegisterBlockEvent on_event on_error"
proof (rule ccontr)
  assume no: "\<not> (\<exists>on_event on_error. oper = RegisterBlockEvent on_event on_error)"
  show False
  proof (cases "\<exists>n. oper = UnregisterBlockEvent n")
    case True
    with assms show False
      by (auto simp: step_def returning_def unregisterBlockEvent_def split: if_splits)
  next
    case False
    with no step_frame [OF assms] show False by blast
  qed
qed

lemma step_count:
  assumes "step P oper h = (r, h')"
  shows "block_registrant_count h \<le> block_registrant_count h'
       \<and> (\<forall>a. r = Inr (Number a) \<longrightarrow>
             a = block_registrant_count h \<and> block_registrant_count h' = Suc a)"
proof (cases oper)
  case (RegisterBlockEvent oe er)
  obtain r0 where r0: "registerBlockEvent oe er h = (r0, h')" "r = map_sum id Number r0"
    using assms RegisterBlockEvent
    by (cases "registerBlockEvent oe er h"; cases "fst (registerBlockEvent oe er h)")
       (auto simp: step_def returning_def)
  from registerBlockEvent_cases [OF r0(1)] r0(2) show ?thesis
    by (cases r0) auto
next
  case (UnregisterBlockEvent n)
  with assms show ?thesis
    by (auto simp: step_def returning_def unregisterBlockEvent_def split: if_splits)
qed (use step_frame [OF assms] in \<open>auto simp: block_frame_def\<close>)

lemma step_handles_ok:
  assumes "block_handles_ok h" "step P oper h = (r, h')"
  shows "block_handles_ok h'"
proof (cases oper)
  case (RegisterBlockEvent oe er)
  obtain r0 where "registerBlockEvent oe er h = (r0, h')"
    using assms(2) RegisterBlockEvent
    by (cases "registerBlockEvent oe er h"; cases "fst (registerBlockEvent oe er h)")
       (auto simp: step_def returning_def)
  with assms(1) show ?thesis by (rule block_handles_ok_registerBlockEvent)
next
  case (UnregisterBlockEvent n)
  obtain r0 where "unregisterBlockEvent n h = (r0, h')"
    using assms(2) UnregisterBlockEvent
    by (cases "unregisterBlockEvent n h"; cases "fst (unregisterBlockEvent n h)")
       (auto simp: step_def returning_def)
  with assms(1) show ?thesis using block_handles_ok_unregisterBlockEvent by blast
qed (use step_frame [OF assms(2)] block_handles_ok_frame [OF assms(1)] in auto)
lemma run_Cons_elim:
  assumes "run P (oper # opers) h = (rs, h')"
  obtains r h1 rs' where "step P oper h = (r, h1)" "run P opers h1 = (rs', h')" "rs = r # rs'"
  using assms by (auto split: prod.splits)

lemma run_count_mono:
  "run P opers h = (rs, h') \<Longrightarrow> block_registrant_count h \<le> block_registrant_count h'"
proof (induction opers arbitrary: h rs)
  case Nil
  then show ?case by simp
next
  case (Cons oper opers)
  from Cons.prems obtain r h1 rs' where
    s: "step P oper h = (r, h1)" and t: "run P opers h1 = (rs', h')"
    by (rule run_Cons_elim)
  from step_count [OF s] Cons.IH [OF t] show ?case by simp
qed

lemma run_handles_ok:
  "block_handles_ok h \<Longrightarrow> run P opers h = (rs, h') \<Longrightarrow> block_handles_ok h'"
proof (induction opers arbitrary: h rs)
  case Nil
  then show ?case by simp
next
  case (Cons oper opers)
  from Cons.prems(2) obtain r h1 rs' where
    s: "step P oper h = (r, h1)" and t: "run P opers h1 = (rs', h')"
    by (rule run_Cons_elim)
  from step_handles_ok [OF Cons.prems(1) s] t show ?case by (rule Cons.IH)
qed

lemma run_number_bounds:
  "run P opers h = (rs, h') \<Longrightarrow> j < length opers \<Longrightarrow> rs ! j = Inr (Number b) \<Longrightarrow>
   block_registrant_count h \<le> b \<and> b < block_registrant_count h'"
proof (induction opers arbitrary: h rs j)
  case Nil
  then show ?case by simp
next
  case (Cons oper opers)
  from Cons.prems(1) obtain r h1 rs' where
    s: "step P oper h = (r, h1)" and t: "run P opers h1 = (rs', h')" and rs: "rs = r # rs'"
    by (rule run_Cons_elim)
  show ?case
  proof (cases j)
    case 0
    with Cons.prems(3) rs have "r = Inr (Number b)" by simp
    with step_count [OF s] run_count_mono [OF t] show ?thesis by simp
  next
    case (Suc j')
    with Cons.prems(2,3) rs have "j' < length opers" "rs' ! j' = Inr (Number b)" by simp_all
    from Cons.IH [OF t this] step_count [OF s] show ?thesis by simp
  qed
qed

lemma run_numbers_increase:
  "run P opers h = (rs, h') \<Longrightarrow> i < j \<Longrightarrow> j < length opers \<Longrightarrow>
   rs ! i = Inr (Number a) \<Longrightarrow> rs ! j = Inr (Number b) \<Longrightarrow> a < b"
proof (induction opers arbitrary: h rs i j)
  case Nil
  then show ?case by simp
next
  case (Cons oper opers)
  from Cons.prems(1) obtain r h1 rs' where
    s: "step P oper h = (r, h1)" and t: "run P opers h1 = (rs', h')" and rs: "rs = r # rs'"
    by (rule run_Cons_elim)
  from Cons.prems(2) obtain j' where j: "j = Suc j'" by (cases j) simp_all
  with Cons.prems(3,5) rs have j': "j' < length opers" "rs' ! j' = Inr (Number b)" by simp_all
  show ?case
  proof (cases i)
    case 0
    with Cons.prems(4) rs have "r = Inr (Number a)" by simp
    with step_count [OF s] run_number_bounds [OF t j'] show ?thesis by simp
  next
    case (Suc i')
    with Cons.prems(2,4) rs j have "i' < j'" "rs' ! i' = Inr (Number a)" by simp_all
    from Cons.IH [OF t this(1) j'(1) this(2) j'(2)] show ?thesis .
  qed
qed

lemma block_handles_ok_new_hub: "block_handles_ok (new_hub user)"
  by (simp add: block_handles_ok_def new_hub_def)

text \<open>
  C9. In every run of a hub from its construction, a number that
  \<open>registerBlockEvent\<close> returns is at least 1, and of two numbers returned the
  later one is strictly larger. At the end of the run the keys of the table of block
  callbacks are distinct and lie from 1 up to the counter, so the next number is the
  key of no active registration. (\<open>Number\<close> is the outcome of a
  \<open>RegisterBlockEvent\<close> operation and of no other.)
\<close>

theorem block_registration_numbers_increase:
  assumes "EventHub_new clientContext = Inr h0"
    and "run P opers h0 = (rs, h)"
    and "i < j" and "j < length opers"
    and "rs ! i = Inr (Number a)" and "rs ! j = Inr (Number b)"
  shows "1 \<le> a \<and> a < b
       \<and> distinct (map fst (blockOnEvents h))
       \<and> list_all (\<lambda>k. 1 \<le> k \<and> k < block_registrant_count h) (map fst (blockOnEvents h))"
proof -
  from assms(1) obtain user where h0: "h0 = new_hub user"
    by (auto simp: EventHub_new_def split: option.splits ClientContext.splits)
  then have c: "block_registrant_count h0 = 1" and ok: "block_handles_ok h0"
    by (simp_all add: block_handles_ok_new_hub) (simp add: new_hub_def)
  from assms(3,4) have i: "i < length opers" by simp
  from run_number_bounds [OF assms(2) i assms(5)] c have "1 \<le> a" by simp
  moreover from run_numbers_increase [OF assms(2-6)] have "a < b" .
  moreover from run_handles_ok [OF ok assms(2)]
  have "distinct (map fst (blockOnEvents h))"
    "list_all (\<lambda>k. 1 \<le> k \<and> k < block_registrant_count h) (map fst (blockOnEvents h))"
    by (simp_all add: block_handles_ok_def)
  ultimately show ?thesis by simp
qed

text \<open>A run with three block registrations and the removal of the first.\<close>

theorem block_registration_numbers_increase_witness:
  "fst (run example_protos
          [SetPeerAddr example_remote, Connect,
           Stream_status False 2, RegisterBlockEvent (Some ''onBlock1'') None,
           RegisterTxEvent ''tx1'' (Some ''onTx1'') None,
           RegisterBlockEvent (Some ''onBlock2'') (Some ''onError2''),
           UnregisterBlockEvent 1, RegisterBlockEvent (Some ''onBlock3'') None]
          (new_hub \<lparr>identity = ''admin''\<rparr>))
   = [Inr Done, Inr Done, Inr Done, Inr (Number 1), Inr Done, Inr (Number 2), Inr Done, Inr (Number 3)]
   \<and> (1::nat) \<le> 1 \<and> (1::nat) < 3
   \<and> map fst (blockOnEvents (snd (run example_protos
          [SetPeerAddr example_remote, Connect,
           Stream_status False 2, RegisterBlockEvent (Some ''onBlock1'') None,
           RegisterTxEvent ''tx1'' (Some ''onTx1'') None,
           RegisterBlockEvent (Some ''onBlock2'') (Some ''onError2''),
           UnregisterBlockEvent 1, RegisterBlockEvent (Some ''onBlock3'') None]
          (new_hub \<lparr>identity = ''admin''\<rparr>)))) = [2, 3]"
proof -
  let ?opers = "[SetPeerAddr example_remote, Connect,
           Stream_status False 2, RegisterBlockEvent (Some ''onBlock1'') None,
           RegisterTxEvent ''tx1'' (Some ''onTx1'') None,
           RegisterBlockEvent (Some ''onBlock2'') (Some ''onError2''),
           UnregisterBlockEvent 1, RegisterBlockEvent (Some ''onBlock3'') None]"
  let ?h0 = "new_hub \<lparr>identity = ''admin''\<rparr>"
  have new: "EventHub_new (Some (GetUserContext (Some \<lparr>identity = ''admin''\<rparr>))) = Inr ?h0"
    by (simp add: EventHub_new_def)
  have rs: "fst (run example_protos ?opers ?h0)
      = [Inr Done, Inr Done, Inr Done, Inr (Number 1), Inr Done, Inr (Number 2), Inr Done, Inr (Number 3)]"
    by (simp add: eval_defs new_hub_def)
  have keys: "map fst (blockOnEvents (snd (run example_protos ?opers ?h0))) = [2, 3]"
    by (simp add: eval_defs new_hub_def)
  have pair: "run example_protos ?opers ?h0
      = (fst (run example_protos ?opers ?h0), snd (run example_protos ?opers ?h0))"
    by simp
  have "(1::nat) \<le> 1 \<and> (1::nat) < 3
       \<and> distinct (map fst (blockOnEvents (snd (run example_protos ?opers ?h0))))
       \<and> list_all (\<lambda>k. 1 \<le> k \<and> k < block_registrant_count (snd (run example_protos ?opers ?h0)))
           (map fst (blockOnEvents (snd (run example_protos ?opers ?h0))))"
    using block_registration_numbers_increase [OF new pair, of 3 7 1 3]
    unfolding rs by simp
  with rs keys show ?thesis by simp
qed

section \<open>The policy decoder, as the spec describes it\<close>

text \<open>
  C5. Decoding a policy of type \<open>MSP\<close> returns the placeholder, with no value,
  and exactly one warning, which names the policy and the type.
\<close>

theorem decodePolicy_MSP:
  assumes "policy_type policyField = 2"
  shows "decodePolicy W policyField =
           (Inr \<lparr>decoded_type = ''MSP'', decoded_value = None\<rparr>,
            [Warning (policy_name policyField) ''MSP''])"
  using assms by (simp add: decodePolicy_def)

text \<open>The policy \<open>Admins\<close> with type 2.\<close>

theorem decodePolicy_MSP_witness:
  "policy_type \<lparr>policy_name = ''Admins'', policy_type = 2, policy_bytes = []\<rparr> = 2
   \<and> decodePolicy \<lparr>decodeSignaturePolicyEnvelope = (\<lambda>b. Inl (DecodeError b)),
                    decodeImplicitMetaPolicy = (\<lambda>b. Inl (DecodeError b))\<rparr>
        \<lparr>policy_name = ''Admins'', policy_type = 2, policy_bytes = []\<rparr>
     = (Inr \<lparr>decoded_type = ''MSP'', decoded_value = None\<rparr>, [Warning ''Admins'' ''MSP''])"
  using decodePolicy_MSP [of "\<lparr>policy_name = ''Admins'', policy_type = 2, policy_bytes = []\<rparr>"
      "\<lparr>decodeSignaturePolicyEnvelope = (\<lambda>b. Inl (DecodeError b)),
        decodeImplicitMetaPolicy = (\<lambda>b. Inl (DecodeError b))\<rparr>"]
  by simp

text \<open>
  C6. Decoding a policy whose type is none of \<open>SIGNATURE\<close> (1), \<open>MSP\<close> (2) and
  \<open>IMPLICIT_META\<close> (3) fails with \<open>UnknownPolicyTypeError\<close>: no decoded policy
  is returned and no diagnostic.
\<close>

theorem decodePolicy_unknown_type:
  assumes "policy_type policyField \<noteq> 1" "policy_type policyField \<noteq> 2" "policy_type policyField \<noteq> 3"
  shows "decodePolicy W policyField = (Inl UnknownPolicyTypeError, [])"
  using assms by (simp add: decodePolicy_def)

text \<open>The types 4 and 0.\<close>

theorem decodePolicy_unknown_type_witness:
  "decodePolicy \<lparr>decodeSignaturePolicyEnvelope = (\<lambda>b. Inl (DecodeError b)),
                  decodeImplicitMetaPolicy = (\<lambda>b. Inl (DecodeError b))\<rparr>
     \<lparr>policy_name = ''Admins'', policy_type = 4, policy_bytes = []\<rparr>
   = (Inl UnknownPolicyTypeError, [])
   \<and> decodePolicy \<lparr>decodeSignaturePolicyEnvelope = (\<lambda>b. Inl (DecodeError b)),
                  decodeImplicitMetaPolicy = (\<lambda>b. Inl (DecodeError b))\<rparr>
     \<lparr>policy_name = ''Admins'', policy_type = 0, policy_bytes = []\<rparr>
   = (Inl UnknownPolicyTypeError, [])"
  using decodePolicy_unknown_type [of "\<lparr>policy_name = ''Admins'', policy_type = 4, policy_bytes = []\<rparr>"
      "\<lparr>decodeSignaturePolicyEnvelope = (\<lambda>b. Inl (DecodeError b)),
        decodeImplicitMetaPolicy = (\<lambda>b. Inl (DecodeError b))\<rparr>"]
    decodePolicy_unknown_type [of "\<lparr>policy_name = ''Admins'', policy_type = 0, policy_bytes = []\<rparr>"
      "\<lparr>decodeSignaturePolicyEnvelope = (\<lambda>b. Inl (DecodeError b)),
        decodeImplicitMetaPolicy = (\<lambda>b. Inl (DecodeError b))\<rparr>"]
  by simp

end
